theory Spec2Isabelle
  imports Complex_Main "HOL-Library.Multiset"
begin

section \<open>Client side: the offline queue\<close>

text \<open>
  Embedding of \<^verbatim>\<open>frontend/src/services/offlineQueue.ts\<close>. A \<^verbatim>\<open>Date\<close> is its time value, the
  number of milliseconds since the epoch (an \<^typ>\<open>int\<close>); the clock reading of
  \<^verbatim>\<open>new Date()\<close> is an argument of the operation that takes it. The class instance is a
  record of its mutable field \<^verbatim>\<open>queue\<close> together with the \<^verbatim>\<open>localStorage\<close> of the browser it
  runs in; every method takes the state and returns the new one.
\<close>

record QueuedSegment =
  q_sessionId :: string
  q_content :: string
  q_timestamp :: int
  q_retryCount :: nat

text \<open>
  What \<^verbatim>\<open>JSON.stringify\<close> writes for a \<^verbatim>\<open>Date\<close>: the text of \<^verbatim>\<open>toISOString\<close>, which renders the
  time value to the millisecond; \<^verbatim>\<open>new Date(text)\<close> reads that text back. The text is kept
  abstract as the instant it denotes.
\<close>

datatype iso_text = IsoText int

record StoredSegment =
  j_sessionId :: string
  j_content :: string
  j_timestamp :: iso_text
  j_retryCount :: nat

text \<open>
  The text held under \<^verbatim>\<open>storageKey\<close>, by what \<^verbatim>\<open>loadFromStorage\<close> makes of it:
  \<^item> \<open>QueueText\<close>, the text that \<^verbatim>\<open>JSON.stringify\<close> writes for a queue, an array of queued
    segments;
  \<^item> \<open>EmptyText\<close>, the empty string, which is falsy;
  \<^item> \<open>ThrowingText\<close>, a text on which the \<^verbatim>\<open>try\<close> block throws: \<^verbatim>\<open>JSON.parse\<close> rejects it, or its
    value has no method \<^verbatim>\<open>map\<close> (an object, a number, a string, a boolean, \<^verbatim>\<open>null\<close>), or it is
    an array that holds a \<^verbatim>\<open>null\<close>, of which \<^verbatim>\<open>item.timestamp\<close> cannot be read.

  The key is the queue's own. The text of an array of other values (numbers, strings,
  objects that are not queued segments), which no method of the class writes, has no
  counterpart here: the source would load one entry for each of its elements, without the
  fields of a queued segment.
\<close>

datatype storage_item = QueueText "StoredSegment list" | EmptyText | ThrowingText

text \<open>
  The \<^verbatim>\<open>localStorage\<close> of the browser, as far as the one key goes: the item it holds, if any,
  and the writes it accepts. \<^verbatim>\<open>setItem\<close> throws (a \<^verbatim>\<open>QuotaExceededError\<close>) on a value that the
  storage has no room for; the result \<open>None\<close> stands for that exception.
\<close>

record LocalStorage =
  ls_item :: "storage_item option"
  ls_accepts :: "storage_item \<Rightarrow> bool"

definition getItem :: "LocalStorage \<Rightarrow> storage_item option" where
  "getItem ls = ls_item ls"

definition setItem :: "storage_item \<Rightarrow> LocalStorage \<Rightarrow> LocalStorage option" where
  "setItem v ls = (if ls_accepts ls v then Some (ls\<lparr>ls_item := Some v\<rparr>) else None)"

definition emptyStorage :: LocalStorage where
  \<comment> \<open>nothing under the key, room for every write\<close>
  "emptyStorage = \<lparr>ls_item = None, ls_accepts = (\<lambda>v. True)\<rparr>"

definition fullStorage :: LocalStorage where
  \<comment> \<open>nothing under the key, and no room left: every write is refused\<close>
  "fullStorage = \<lparr>ls_item = None, ls_accepts = (\<lambda>v. False)\<rparr>"

record OfflineQueue =
  queue :: "QueuedSegment list"
  localStorage :: LocalStorage

definition maxRetries :: nat where
  "maxRetries = 3"

definition toJSON :: "QueuedSegment \<Rightarrow> StoredSegment" where
  "toJSON item =
     \<lparr>j_sessionId = q_sessionId item, j_content = q_content item,
      j_timestamp = IsoText (q_timestamp item), j_retryCount = q_retryCount item\<rparr>"

fun newDate :: "iso_text \<Rightarrow> int" where
  "newDate (IsoText t) = t"

definition fromJSON :: "StoredSegment \<Rightarrow> QueuedSegment" where
  \<comment> \<open>\<^verbatim>\<open>{...item, timestamp: new Date(item.timestamp)}\<close>\<close>
  "fromJSON item =
     \<lparr>q_sessionId = j_sessionId item, q_content = j_content item,
      q_timestamp = newDate (j_timestamp item), q_retryCount = j_retryCount item\<rparr>"

definition saveToStorage :: "OfflineQueue \<Rightarrow> OfflineQueue" where
  \<comment> \<open>the \<^verbatim>\<open>catch\<close> only logs the exception of a refused write: queue and storage stay as
      they are\<close>
  "saveToStorage st =
     (case setItem (QueueText (map toJSON (queue st))) (localStorage st) of
        Some written \<Rightarrow> st\<lparr>localStorage := written\<rparr>
      | None \<Rightarrow> st)"

definition loadFromStorage :: "OfflineQueue \<Rightarrow> OfflineQueue" where
  \<comment> \<open>a missing item (\<^verbatim>\<open>null\<close>) and the empty text are falsy and leave the queue alone; what
      the \<^verbatim>\<open>try\<close> block throws is caught and empties the queue\<close>
  "loadFromStorage st =
     (case getItem (localStorage st) of
        None \<Rightarrow> st
      | Some EmptyText \<Rightarrow> st
      | Some (QueueText parsed) \<Rightarrow> st\<lparr>queue := map fromJSON parsed\<rparr>
      | Some ThrowingText \<Rightarrow> st\<lparr>queue := []\<rparr>)"

definition newOfflineQueue :: "LocalStorage \<Rightarrow> OfflineQueue" where
  \<comment> \<open>the constructor, against the storage it finds\<close>
  "newOfflineQueue storage = loadFromStorage \<lparr>queue = [], localStorage = storage\<rparr>"

definition enqueue :: "string \<Rightarrow> string \<Rightarrow> int \<Rightarrow> OfflineQueue \<Rightarrow> OfflineQueue" where
  "enqueue sessionId content now st =
     saveToStorage (st\<lparr>queue := queue st @
       [\<lparr>q_sessionId = sessionId, q_content = content, q_timestamp = now, q_retryCount = 0\<rparr>]\<rparr>)"

definition getQueuedSegments :: "string \<Rightarrow> OfflineQueue \<Rightarrow> QueuedSegment list" where
  "getQueuedSegments sessionId st = filter (\<lambda>item. q_sessionId item = sessionId) (queue st)"


definition sameEntry :: "string \<Rightarrow> int \<Rightarrow> QueuedSegment \<Rightarrow> bool" where
  \<comment> \<open>the predicate of \<^verbatim>\<open>dequeue\<close> and \<^verbatim>\<open>incrementRetry\<close>\<close>
  "sameEntry sessionId timestamp item \<longleftrightarrow>
     q_sessionId item = sessionId \<and> q_timestamp item = timestamp"

definition dequeue :: "string \<Rightarrow> int \<Rightarrow> OfflineQueue \<Rightarrow> OfflineQueue" where
  "dequeue sessionId timestamp st =
     saveToStorage (st\<lparr>queue := filter (\<lambda>item. \<not> sameEntry sessionId timestamp item) (queue st)\<rparr>)"

fun incrementFound :: "(QueuedSegment \<Rightarrow> bool) \<Rightarrow> QueuedSegment list \<Rightarrow> QueuedSegment list" where
  \<comment> \<open>\<^verbatim>\<open>item.retryCount++\<close> on the object that \<^verbatim>\<open>find\<close> returned: the first match, in place\<close>
  "incrementFound P [] = []"
| "incrementFound P (item # items) =
     (if P item then item\<lparr>q_retryCount := q_retryCount item + 1\<rparr> # items
      else item # incrementFound P items)"

definition incrementRetry :: "string \<Rightarrow> int \<Rightarrow> OfflineQueue \<Rightarrow> bool \<times> OfflineQueue" where
  "incrementRetry sessionId timestamp st =
     (case find (sameEntry sessionId timestamp) (queue st) of
        Some item \<Rightarrow>
          (let st1 = st\<lparr>queue := incrementFound (sameEntry sessionId timestamp) (queue st)\<rparr>
           in if q_retryCount item + 1 \<ge> maxRetries
              then (False, dequeue sessionId timestamp st1)
              else (True, saveToStorage st1))
      | None \<Rightarrow> (False, st))"

definition clearSession :: "string \<Rightarrow> OfflineQueue \<Rightarrow> OfflineQueue" where
  "clearSession sessionId st =
     saveToStorage (st\<lparr>queue := filter (\<lambda>item. q_sessionId item \<noteq> sessionId) (queue st)\<rparr>)"

definition clearAll :: "OfflineQueue \<Rightarrow> OfflineQueue" where
  "clearAll st = saveToStorage (st\<lparr>queue := []\<rparr>)"


definition isEmpty :: "OfflineQueue \<Rightarrow> bool" where
  "isEmpty st \<longleftrightarrow> length (queue st) = 0"

text \<open>A caller's sequence of mutating calls, run in order.\<close>

datatype queue_call =
    Enqueue string string int
  | Dequeue string int
  | IncrementRetry string int
  | ClearSession string
  | ClearAll

fun call :: "queue_call \<Rightarrow> OfflineQueue \<Rightarrow> OfflineQueue" where
  "call (Enqueue sessionId content now) st = enqueue sessionId content now st"
| "call (Dequeue sessionId timestamp) st = dequeue sessionId timestamp st"
| "call (IncrementRetry sessionId timestamp) st = snd (incrementRetry sessionId timestamp st)"
| "call (ClearSession sessionId) st = clearSession sessionId st"
| "call (ClearAll) st = clearAll st"

fun calls :: "queue_call list \<Rightarrow> OfflineQueue \<Rightarrow> OfflineQueue" where
  "calls [] st = st"
| "calls (c # cs) st = calls cs (call c st)"

section \<open>Client side: the reconnection manager\<close>

text \<open>
  Embedding of the class \<^verbatim>\<open>ReconnectionManager\<close> of the same file. The value of
  \<^verbatim>\<open>Math.random()\<close>, a number in \<open>[0, 1)\<close>, is an argument of \<^verbatim>\<open>getNextDelay\<close>. The pending timer
  is kept as the delay it was armed with.

  A JavaScript number is a double: the result of an arithmetic operation is the exact
  result rounded to the nearest number with a significand of 53 bits, a tie going to the
  even significand. \<open>toDouble\<close> is that rounding, on the sign and the magnitude apart as the
  format has them. The exponent is not bounded here: the values that \<^verbatim>\<open>getNextDelay\<close> rounds
  are far from the overflow and underflow thresholds of the format.
\<close>

definition roundTiesToEven :: "real \<Rightarrow> int" where
  "roundTiesToEven q =
     (let f = \<lfloor>q\<rfloor>; d = q - of_int f
      in if d < 1/2 then f else if d > 1/2 then f + 1 else if even f then f else f + 1)"

function exponentOf :: "real \<Rightarrow> int" where
  \<comment> \<open>of a positive number \<open>x\<close>: the \<open>e\<close> with \<open>2 ^ e \<le> x < 2 ^ (e + 1)\<close>, by normalising\<close>
  "exponentOf x =
     (if x \<le> 0 then 0
      else if x < 1 then exponentOf (x * 2) - 1
      else if 2 \<le> x then exponentOf (x / 2) + 1
      else 0)"
  by pat_completeness auto
termination
proof (relation "measure (\<lambda>x. nat \<bar>\<lfloor>log 2 x\<rfloor>\<bar>)")
  show "wf (measure (\<lambda>x. nat \<bar>\<lfloor>log 2 x\<rfloor>\<bar>))" by simp
next
  fix x :: real
  assume x: "\<not> x \<le> 0" "x < 1"
  then have "log 2 (x * 2) = log 2 x + 1" by (simp add: log_mult)
  then have "\<lfloor>log 2 (x * 2)\<rfloor> = \<lfloor>log 2 x\<rfloor> + 1" by simp
  moreover have "log 2 x < 0" using x by simp
  then have "\<lfloor>log 2 x\<rfloor> \<le> - 1" by linarith
  ultimately have "nat \<bar>\<lfloor>log 2 (x * 2)\<rfloor>\<bar> < nat \<bar>\<lfloor>log 2 x\<rfloor>\<bar>" by linarith
  then show "(x * 2, x) \<in> measure (\<lambda>x. nat \<bar>\<lfloor>log 2 x\<rfloor>\<bar>)" by (simp only: in_measure)
next
  fix x :: real
  assume x: "\<not> x \<le> 0" "\<not> x < 1" "2 \<le> x"
  then have "log 2 (x / 2) = log 2 x - 1" by (simp add: log_divide)
  then have "\<lfloor>log 2 (x / 2)\<rfloor> = \<lfloor>log 2 x\<rfloor> - 1" by simp
  moreover have "log 2 2 \<le> log 2 x" using x by (subst log_le_cancel_iff) simp_all
  then have "1 \<le> log 2 x" by simp
  then have "1 \<le> \<lfloor>log 2 x\<rfloor>" by linarith
  ultimately have "nat \<bar>\<lfloor>log 2 (x / 2)\<rfloor>\<bar> < nat \<bar>\<lfloor>log 2 x\<rfloor>\<bar>" by linarith
  then show "(x / 2, x) \<in> measure (\<lambda>x. nat \<bar>\<lfloor>log 2 x\<rfloor>\<bar>)" by (simp only: in_measure)
qed

declare exponentOf.simps [simp del]

definition roundMagnitude :: "real \<Rightarrow> real" where
  \<comment> \<open>of a positive number: to the nearest multiple of the unit in its last place\<close>
  "roundMagnitude x =
     of_int (roundTiesToEven (x / 2 powi (exponentOf x - 52))) * 2 powi (exponentOf x - 52)"

definition toDouble :: "real \<Rightarrow> real" where
  "toDouble x = (if x = 0 then 0 else if x < 0 then - roundMagnitude (- x) else roundMagnitude x)"

record ReconnectionManager =
  attempt :: nat
  reconnectTimer :: "real option"

definition maxAttempts :: nat where
  "maxAttempts = 10"

definition baseDelay :: real where
  "baseDelay = 1000"

definition maxDelay :: real where
  "maxDelay = 30000"

definition newReconnectionManager :: ReconnectionManager where
  "newReconnectionManager = \<lparr>attempt = 0, reconnectTimer = None\<rparr>"

definition exponentialDelay :: "nat \<Rightarrow> real" where
  \<comment> \<open>\<^verbatim>\<open>baseDelay * Math.pow(2, attempt)\<close>: a power of two and 1000 times a power of two are
      doubles, so neither operation rounds; past the largest double both are \<^verbatim>\<open>Infinity\<close>,
      which \<^verbatim>\<open>Math.min\<close> caps like every value above \<^verbatim>\<open>maxDelay\<close>\<close>
  "exponentialDelay n = baseDelay * 2 ^ n"

definition cappedDelay :: "nat \<Rightarrow> real" where
  "cappedDelay n = min (exponentialDelay n) maxDelay"

definition getNextDelay :: "real \<Rightarrow> ReconnectionManager \<Rightarrow> real \<times> ReconnectionManager" where
  \<comment> \<open>every product, difference and sum of the source rounded, in the order of evaluation\<close>
  "getNextDelay random rm =
     (let jitter = toDouble (toDouble (cappedDelay (attempt rm) * 0.25)
                             * toDouble (toDouble (random * 2) - 1));
          delay = max 0 (toDouble (cappedDelay (attempt rm) + jitter))
      in (delay, rm\<lparr>attempt := attempt rm + 1\<rparr>))"

definition clearTimer :: "ReconnectionManager \<Rightarrow> ReconnectionManager" where
  "clearTimer rm = rm\<lparr>reconnectTimer := None\<rparr>"

definition reset :: "ReconnectionManager \<Rightarrow> ReconnectionManager" where
  "reset rm = clearTimer (rm\<lparr>attempt := 0\<rparr>)"

definition isMaxAttemptsReached :: "ReconnectionManager \<Rightarrow> bool" where
  "isMaxAttemptsReached rm \<longleftrightarrow> attempt rm \<ge> maxAttempts"

definition getCurrentAttempt :: "ReconnectionManager \<Rightarrow> nat" where
  "getCurrentAttempt rm = attempt rm"

definition scheduleReconnect :: "real \<Rightarrow> ReconnectionManager \<Rightarrow> ReconnectionManager" where
  "scheduleReconnect random rm =
     (let rm1 = clearTimer rm
      in if isMaxAttemptsReached rm1 then rm1
         else (case getNextDelay random rm1 of
                 (delay, rm2) \<Rightarrow> rm2\<lparr>reconnectTimer := Some delay\<rparr>))"

text \<open>Successive calls of \<^verbatim>\<open>getNextDelay\<close>, one random draw each: the delays returned.\<close>

fun nextDelays :: "real list \<Rightarrow> ReconnectionManager \<Rightarrow> real list" where
  "nextDelays [] rm = []"
| "nextDelays (random # randoms) rm =
     fst (getNextDelay random rm) # nextDelays randoms (snd (getNextDelay random rm))"

section \<open>Server side: the story manager\<close>

text \<open>
  Embedding of the class \<^verbatim>\<open>StoryManager\<close> (with its inactivity timers) and of the shared types
  \<^verbatim>\<open>StorySession\<close>, \<^verbatim>\<open>StorySegment\<close> and \<^verbatim>\<open>Participant\<close>. Dates are time values in milliseconds.
  What \<^verbatim>\<open>randomUUID()\<close> and \<^verbatim>\<open>new Date()\<close> return are arguments of the operation that calls
  them. The map \<^verbatim>\<open>sessions\<close> holds the session objects; a method that mutates the object it
  looked up stores the changed session back.
\<close>

record Participant =
  p_id :: string
  p_name :: string
  p_joinedAt :: int

datatype ContributorType = User | Ai

record StorySegment =
  seg_id :: string
  seg_content :: string
  seg_contributorId :: string
  seg_contributorType :: ContributorType
  seg_timestamp :: int
  seg_moodTags :: "string list"

record StorySession =
  s_id :: string
  s_title :: string
  s_startingPrompt :: "string option"
  s_participants :: "Participant list"
  s_segments :: "StorySegment list"
  s_createdAt :: int
  s_lastActivityAt :: int

text \<open>A pending inactivity timer is kept as the time at which it fires.\<close>

record StoryManager =
  sessions :: "string \<rightharpoonup> StorySession"
  sessionTimers :: "string \<rightharpoonup> int"

definition SESSION_TIMEOUT :: int where
  "SESSION_TIMEOUT = 24 * 60 * 60 * 1000"

definition newStoryManager :: StoryManager where
  "newStoryManager = \<lparr>sessions = Map.empty, sessionTimers = Map.empty\<rparr>"

text \<open>
  \<^verbatim>\<open>Array.prototype.sort\<close> with a comparator is a stable sort: an element moves in front of
  another only when the comparator puts it strictly before. For a consistent comparator the
  result is the one that inserting the elements from left to right, each behind the
  elements it is not strictly before, computes.
\<close>

fun insertSorted :: "('a \<Rightarrow> 'a \<Rightarrow> int) \<Rightarrow> 'a \<Rightarrow> 'a list \<Rightarrow> 'a list" where
  "insertSorted cmp x [] = [x]"
| "insertSorted cmp x (y # ys) =
     (if cmp x y < 0 then x # y # ys else y # insertSorted cmp x ys)"

definition sort_array :: "('a \<Rightarrow> 'a \<Rightarrow> int) \<Rightarrow> 'a list \<Rightarrow> 'a list" where
  "sort_array cmp xs = foldl (\<lambda>sorted x. insertSorted cmp x sorted) [] xs"

definition byTimestamp :: "StorySegment \<Rightarrow> StorySegment \<Rightarrow> int" where
  \<comment> \<open>\<^verbatim>\<open>(a, b) => a.timestamp.getTime() - b.timestamp.getTime()\<close>\<close>
  "byTimestamp a b = seg_timestamp a - seg_timestamp b"

definition createSession ::
  "string \<Rightarrow> string option \<Rightarrow> string \<Rightarrow> int \<Rightarrow> StoryManager \<Rightarrow> StorySession \<times> StoryManager" where
  "createSession title startingPrompt uuid now m =
     (let session = \<lparr>s_id = uuid, s_title = title, s_startingPrompt = startingPrompt,
                      s_participants = [], s_segments = [], s_createdAt = now,
                      s_lastActivityAt = now\<rparr>
      in (session, m\<lparr>sessions := (sessions m)(s_id session \<mapsto> session)\<rparr>))"

definition getSession :: "string \<Rightarrow> StoryManager \<Rightarrow> StorySession option" where
  "getSession sessionId m = sessions m sessionId"

definition refreshSessionTimeout :: "string \<Rightarrow> int \<Rightarrow> StoryManager \<Rightarrow> StoryManager" where
  \<comment> \<open>clears the pending timer of the session, if any, and arms a new one\<close>
  "refreshSessionTimeout sessionId now m =
     m\<lparr>sessionTimers := (sessionTimers m)(sessionId \<mapsto> now + SESSION_TIMEOUT)\<rparr>"

definition sessionTimerFires :: "string \<Rightarrow> StoryManager \<Rightarrow> StoryManager" where
  \<comment> \<open>the callback of the timer\<close>
  "sessionTimerFires sessionId m =
     m\<lparr>sessions := (sessions m)(sessionId := None),
       sessionTimers := (sessionTimers m)(sessionId := None)\<rparr>"

text \<open>
  The methods \<^verbatim>\<open>addParticipant\<close> and \<^verbatim>\<open>addSegment\<close> return \<^verbatim>\<open>void\<close>: the new state is all
  they give back, with or without the session.
\<close>

definition addParticipant :: "string \<Rightarrow> Participant \<Rightarrow> int \<Rightarrow> StoryManager \<Rightarrow> StoryManager" where
  "addParticipant sessionId participant now m =
     (case sessions m sessionId of
        None \<Rightarrow> m
      | Some session \<Rightarrow>
          (let existingParticipant =
                 find (\<lambda>p. p_name p = p_name participant) (s_participants session);
               session1 =
                 (if existingParticipant = None
                  then session\<lparr>s_participants := s_participants session @ [participant]\<rparr>
                  else session);
               session2 = session1\<lparr>s_lastActivityAt := now\<rparr>
           in refreshSessionTimeout sessionId now
                (m\<lparr>sessions := (sessions m)(sessionId \<mapsto> session2)\<rparr>)))"

definition addSegment :: "string \<Rightarrow> StorySegment \<Rightarrow> int \<Rightarrow> StoryManager \<Rightarrow> StoryManager" where
  "addSegment sessionId segment now m =
     (case sessions m sessionId of
        None \<Rightarrow> m
      | Some session \<Rightarrow>
          (let session1 =
                 session\<lparr>s_segments := sort_array byTimestamp (s_segments session @ [segment])\<rparr>;
               session2 = session1\<lparr>s_lastActivityAt := now\<rparr>
           in refreshSessionTimeout sessionId now
                (m\<lparr>sessions := (sessions m)(sessionId \<mapsto> session2)\<rparr>)))"

definition getSegments :: "string \<Rightarrow> StoryManager \<Rightarrow> StorySegment list" where
  "getSegments sessionId m =
     (case sessions m sessionId of Some session \<Rightarrow> s_segments session | None \<Rightarrow> [])"

text \<open>
  \<^verbatim>\<open>exportSession\<close> returns a string or throws an \<^verbatim>\<open>Error\<close>. The two renderings of a date,
  \<^verbatim>\<open>toISOString\<close> and the locale's \<^verbatim>\<open>toLocaleString\<close>, are arguments.
\<close>

datatype 'a completion = Returns 'a | Throws string

datatype export_format = Text | Html

fun join :: "string \<Rightarrow> string list \<Rightarrow> string" where
  "join sep [] = []"
| "join sep [x] = x"
| "join sep (x # y # ys) = x @ sep @ join sep (y # ys)"

definition contributorName :: "StorySession \<Rightarrow> StorySegment \<Rightarrow> string option" where
  "contributorName session segment =
     map_option p_name
       (find (\<lambda>p. p_id p = seg_contributorId segment) (s_participants session))"

definition exportAsText :: "(int \<Rightarrow> string) \<Rightarrow> StorySession \<Rightarrow> string" where
  "exportAsText toISOString session =
     s_title session @ [CHR 0x0A]
     @ ''Created: '' @ toISOString (s_createdAt session) @ [CHR 0x0A]
     @ ''Participants: '' @ join '', '' (map p_name (s_participants session))
     @ [CHR 0x0A, CHR 0x0A]
     @ concat (map (\<lambda>segment.
         (let name = (case contributorName session segment of
                        Some n \<Rightarrow> n | None \<Rightarrow> seg_contributorId segment)
          in ''['' @ name @ ''] '' @ seg_content segment @ [CHR 0x0A, CHR 0x0A]))
         (s_segments session))"

definition htmlHead :: "string \<Rightarrow> string" where
  "htmlHead title =
     ''<!DOCTYPE html><html><head><meta charset='' @ [CHR 0x22] @ ''UTF-8'' @ [CHR 0x22]
     @ ''><title>'' @ title @ ''</title>''
     @ ''<style>body{font-family:Georgia,serif;max-width:800px;margin:40px auto;''
     @ ''padding:20px;background:#0a0a0f;color:#e8e8f0;}''
     @ ''h1{color:#8b5cf6;}.segment{margin:20px 0;padding:15px;''
     @ ''border-left:3px solid #6b46c1;}''
     @ ''.ai-segment{background:#1e1433;border-color:#8b5cf6;}''
     @ ''.contributor{font-weight:bold;color:#b8b8c8;}</style></head><body>''"

definition exportAsHtml :: "(int \<Rightarrow> string) \<Rightarrow> StorySession \<Rightarrow> string" where
  "exportAsHtml toLocaleString session =
     htmlHead (s_title session)
     @ ''<h1>'' @ s_title session @ ''</h1>''
     @ ''<p><em>Created: '' @ toLocaleString (s_createdAt session) @ ''</em></p>''
     @ ''<p><em>Participants: '' @ join '', '' (map p_name (s_participants session))
     @ ''</em></p>''
     @ concat (map (\<lambda>segment.
         (let name = (case contributorName session segment of
                        Some n \<Rightarrow> n
                      | None \<Rightarrow> if seg_contributorType segment = Ai then ''AI Co-Author''
                                else seg_contributorId segment);
              segmentClass = (if seg_contributorType segment = Ai then ''ai-segment''
                              else ''user-segment'')
          in ''<div class='' @ [CHR 0x22] @ ''segment '' @ segmentClass @ [CHR 0x22]
             @ ''><span class='' @ [CHR 0x22] @ ''contributor'' @ [CHR 0x22] @ ''>''
             @ name @ '':</span> '' @ seg_content segment @ ''</div>''))
         (s_segments session))
     @ ''</body></html>''"

definition exportSession ::
  "(int \<Rightarrow> string) \<Rightarrow> (int \<Rightarrow> string) \<Rightarrow> string \<Rightarrow> export_format \<Rightarrow> StoryManager
     \<Rightarrow> string completion" where
  "exportSession toISOString toLocaleString sessionId format m =
     (case sessions m sessionId of
        None \<Rightarrow> Throws ''Session not found''
      | Some session \<Rightarrow>
          if format = Text then Returns (exportAsText toISOString session)
          else Returns (exportAsHtml toLocaleString session))"

text \<open>A caller's sequence of \<^verbatim>\<open>addSegment\<close> calls: session id, segment, clock reading.\<close>

fun addSegments :: "(string \<times> StorySegment \<times> int) list \<Rightarrow> StoryManager \<Rightarrow> StoryManager" where
  "addSegments [] m = m"
| "addSegments ((sessionId, segment, now) # rest) m =
     addSegments rest (addSegment sessionId segment now m)"

section \<open>Server side: content validation\<close>

text \<open>
  Embedding of \<^verbatim>\<open>backend/src/utils/validation.ts\<close>. A string is the list of its code units,
  here the code units below 256 (\<^typ>\<open>char\<close>); \<^verbatim>\<open>length\<close> counts them as the source does. The
  regular expressions of the source are written out as the scans they perform.
\<close>

definition PROFANITY_LIST :: "string list" where
  "PROFANITY_LIST =
     [''fuck'', ''shit'', ''damn'', ''bitch'', ''ass'', ''bastard'', ''crap'', ''piss'', ''cock'',
      ''dick'', ''pussy'', ''cunt'', ''whore'', ''slut'', ''fag'', ''nigger'', ''retard'']"

definition MAX_SEGMENT_LENGTH :: nat where
  "MAX_SEGMENT_LENGTH = 500"

definition MIN_SEGMENT_LENGTH :: nat where
  "MIN_SEGMENT_LENGTH = 1"

definition isWhiteSpace :: "char \<Rightarrow> bool" where
  \<comment> \<open>what \<^verbatim>\<open>trim\<close> strips: tab, line feed, vertical tab, form feed, carriage return, space,
      no-break space\<close>
  "isWhiteSpace c \<longleftrightarrow> (of_char c :: nat) \<in> {9, 10, 11, 12, 13, 32, 160}"

definition trim :: "string \<Rightarrow> string" where
  "trim s = rev (dropWhile isWhiteSpace (rev (dropWhile isWhiteSpace s)))"

definition toLowerCase_unit :: "char \<Rightarrow> char" where
  \<comment> \<open>the capital letters below 256: A to Z, and 192 to 222 without the multiplication sign\<close>
  "toLowerCase_unit c =
     (let n = (of_char c :: nat)
      in if (65 \<le> n \<and> n \<le> 90) \<or> (192 \<le> n \<and> n \<le> 222 \<and> n \<noteq> 215)
         then char_of (n + 32) else c)"

definition toLowerCase :: "string \<Rightarrow> string" where
  "toLowerCase s = map toLowerCase_unit s"

definition isWordChar :: "char \<Rightarrow> bool" where
  \<comment> \<open>the class \<^verbatim>\<open>\w\<close> behind \<^verbatim>\<open>\b\<close>: letters, digits and the underscore of ASCII\<close>
  "isWordChar c \<longleftrightarrow>
     (let n = (of_char c :: nat)
      in (48 \<le> n \<and> n \<le> 57) \<or> (65 \<le> n \<and> n \<le> 90) \<or> n = 95 \<or> (97 \<le> n \<and> n \<le> 122))"

definition canonicalize :: "char \<Rightarrow> char" where
  \<comment> \<open>the case folding of the flag \<^verbatim>\<open>i\<close>: upper case; a code unit from 128 on never folds to
      an ASCII one, and the patterns of the source are ASCII, so only ASCII letters are folded\<close>
  "canonicalize c =
     (let n = (of_char c :: nat) in if 97 \<le> n \<and> n \<le> 122 then char_of (n - 32) else c)"

fun matchesAt :: "string \<Rightarrow> string \<Rightarrow> bool" where
  \<comment> \<open>the literal, ignoring case, at the start of the text\<close>
  "matchesAt [] text = True"
| "matchesAt (p # ps) [] = False"
| "matchesAt (p # ps) (c # cs) = (canonicalize p = canonicalize c \<and> matchesAt ps cs)"

definition wordBoundary :: "bool \<Rightarrow> string \<Rightarrow> bool" where
  \<comment> \<open>\<^verbatim>\<open>\b\<close> between the previous code unit (a word character or not; not at the start)
      and the rest of the text\<close>
  "wordBoundary previousIsWord rest \<longleftrightarrow>
     previousIsWord \<noteq> (case rest of [] \<Rightarrow> False | c # _ \<Rightarrow> isWordChar c)"

definition endsInWordChar :: "string \<Rightarrow> bool" where
  "endsInWordChar s \<longleftrightarrow> (case rev s of [] \<Rightarrow> False | c # _ \<Rightarrow> isWordChar c)"

definition wordHere :: "bool \<Rightarrow> string \<Rightarrow> string \<Rightarrow> bool" where
  \<comment> \<open>\<^verbatim>\<open>\bword\b\<close> at this position\<close>
  "wordHere previousIsWord word text \<longleftrightarrow>
     wordBoundary previousIsWord text \<and> matchesAt word text
     \<and> wordBoundary (endsInWordChar (take (length word) text)) (drop (length word) text)"

fun wordFrom :: "bool \<Rightarrow> string \<Rightarrow> string \<Rightarrow> bool" where
  \<comment> \<open>\<^verbatim>\<open>\bword\b\<close> at this position or a later one\<close>
  "wordFrom previousIsWord word [] = wordHere previousIsWord word []"
| "wordFrom previousIsWord word (c # cs) =
     (wordHere previousIsWord word (c # cs) \<or> wordFrom (isWordChar c) word cs)"

definition testWord :: "string \<Rightarrow> string \<Rightarrow> bool" where
  \<comment> \<open>\<^verbatim>\<open>new RegExp(`\\b${word}\\b`, 'i').test(text)\<close>\<close>
  "testWord word text = wordFrom False word text"

definition containsProfanity :: "string \<Rightarrow> bool" where
  "containsProfanity content =
     (let lowerContent = toLowerCase content
      in list_ex (\<lambda>word. testWord word lowerContent) PROFANITY_LIST)"

function stripTags :: "string \<Rightarrow> string" where
  \<comment> \<open>\<^verbatim>\<open>replace(/<[^>]*>/g, '')\<close>: from a \<^verbatim>\<open><\<close> through the next \<^verbatim>\<open>>\<close>, when there is one\<close>
  "stripTags [] = []"
| "stripTags (c # cs) =
     (if c = CHR ''<'' \<and> CHR ''>'' \<in> set cs
      then stripTags (drop 1 (dropWhile (\<lambda>d. d \<noteq> CHR ''>'') cs))
      else c # stripTags cs)"
  by pat_completeness auto
termination
proof (relation "measure length")
  fix c :: char and cs :: string
  have "length (dropWhile (\<lambda>d. d \<noteq> CHR ''>'') cs) \<le> length cs"
    by (rule length_dropWhile_le)
  then show "(drop 1 (dropWhile (\<lambda>d. d \<noteq> CHR ''>'') cs), c # cs) \<in> measure length"
    by simp
qed simp_all

fun afterClosingTag :: "string \<Rightarrow> string option" where
  \<comment> \<open>the text behind the first \<^verbatim>\<open></script>\<close>, if there is one\<close>
  "afterClosingTag [] = None"
| "afterClosingTag (c # cs) =
     (if matchesAt ''</script>'' (c # cs) then Some (drop 9 (c # cs)) else afterClosingTag cs)"

function stripScripts :: "string \<Rightarrow> string" where
  \<comment> \<open>\<^verbatim>\<open>replace(/<script\b[^<]*(?:(?!<\/script>)<[^<]*)*<\/script>/gi, '')\<close>: the expression
      matches from \<^verbatim>\<open><script\<close> at a word boundary through the first \<^verbatim>\<open></script>\<close> behind it\<close>
  "stripScripts [] = []"
| "stripScripts (c # cs) =
     (if matchesAt ''<script'' (c # cs) \<and> wordBoundary True (drop 7 (c # cs))
      then (case afterClosingTag (drop 7 (c # cs)) of
              Some rest \<Rightarrow> stripScripts rest
            | None \<Rightarrow> c # stripScripts cs)
      else c # stripScripts cs)"
  by pat_completeness auto
termination
proof (relation "measure length")
  fix c :: char and cs rest :: string
  assume found: "afterClosingTag (drop 7 (c # cs)) = Some rest"
  have shorter: "afterClosingTag s = Some r \<Longrightarrow> length r \<le> length s" for s r
    by (induction s) (auto split: if_splits)
  have "length rest \<le> length (drop 7 (c # cs))"
    using shorter [OF found] .
  then show "(rest, c # cs) \<in> measure length"
    by simp
qed simp_all

definition sanitizeInput :: "string \<Rightarrow> string" where
  "sanitizeInput input = trim (stripScripts (stripTags input))"

definition isValidLength :: "string \<Rightarrow> bool" where
  "isValidLength content \<longleftrightarrow>
     (let n = length (trim content) in n \<ge> MIN_SEGMENT_LENGTH \<and> n \<le> MAX_SEGMENT_LENGTH)"

definition hasContent :: "string \<Rightarrow> bool" where
  "hasContent content \<longleftrightarrow> length (trim content) > 0"

record ValidationResult =
  v_valid :: bool
  v_error :: "string option"
  v_sanitized :: "string option"

definition validateSegment :: "string \<Rightarrow> ValidationResult" where
  "validateSegment content =
     (if \<not> hasContent content
      then \<lparr>v_valid = False, v_error = Some ''Content cannot be empty or only whitespace'',
            v_sanitized = None\<rparr>
      else (let sanitized = sanitizeInput content
            in if \<not> isValidLength sanitized
               then \<lparr>v_valid = False,
                     v_error = Some ''Content must be between 1 and 500 characters'',
                     v_sanitized = None\<rparr>
               else if containsProfanity sanitized
               then \<lparr>v_valid = False, v_error = Some ''Content contains inappropriate language'',
                     v_sanitized = None\<rparr>
               else \<lparr>v_valid = True, v_error = None, v_sanitized = Some sanitized\<rparr>))"

section \<open>Server side: the websocket handlers\<close>

text \<open>
  Embedding of \<^verbatim>\<open>setupWebSocketHandlers\<close> (\<^verbatim>\<open>backend/src/routes/websocket.ts\<close>). The state of the
  gateway is the story manager, the rooms of the socket server (for every room name, the ids
  of the sockets that joined it, in joining order) and the \<^verbatim>\<open>data\<close> each socket carries. A
  handler takes the id of the socket whose event it serves and the state, and returns the
  new state with the events it emitted: a list of deliveries, each the id of a receiving
  socket with the event, in the order of emission. One clock reading is taken per handled
  event. Rooms are the ones the handlers join: the room that the socket server keeps for
  each socket under the socket's own id is left out (a session id is a UUID, which no socket
  id is). The outer \<^verbatim>\<open>catch\<close> of a handler turns an exception into an error event; on the
  inputs of this embedding, which have the types the handlers declare, no statement of the
  four handlers below throws, so that branch does not appear.
\<close>

record HorrorElement =
  h_content :: string
  h_intensity :: nat
  h_tags :: "string list"

datatype ServerEvent =
    SessionCreated StorySession
  | SessionUpdated StorySession
  | SessionReconnected string
  | ParticipantJoined Participant
  | SegmentAdded StorySegment
  | SegmentAcknowledged string
  | ErrorEvent string string "string option"

type_synonym delivery = "string \<times> ServerEvent"

record Gateway =
  storyManager :: StoryManager
  rooms :: "string \<Rightarrow> string list"
  socketData :: "string \<rightharpoonup> string \<times> string"

definition newGateway :: Gateway where
  "newGateway = \<lparr>storyManager = newStoryManager, rooms = (\<lambda>room. []), socketData = Map.empty\<rparr>"

definition socketJoin :: "string \<Rightarrow> string \<Rightarrow> Gateway \<Rightarrow> Gateway" where
  \<comment> \<open>\<^verbatim>\<open>socket.join(room)\<close>: a room is a set of socket ids\<close>
  "socketJoin socket room gw =
     (if socket \<in> set (rooms gw room) then gw
      else gw\<lparr>rooms := (rooms gw)(room := rooms gw room @ [socket])\<rparr>)"

definition socketEmit :: "string \<Rightarrow> ServerEvent \<Rightarrow> delivery list" where
  \<comment> \<open>\<^verbatim>\<open>socket.emit(event)\<close>\<close>
  "socketEmit socket event = [(socket, event)]"

definition ioToEmit :: "Gateway \<Rightarrow> string \<Rightarrow> ServerEvent \<Rightarrow> delivery list" where
  \<comment> \<open>\<^verbatim>\<open>io.to(room).emit(event)\<close>: every socket of the room\<close>
  "ioToEmit gw room event = map (\<lambda>member. (member, event)) (rooms gw room)"

definition socketToEmit :: "Gateway \<Rightarrow> string \<Rightarrow> string \<Rightarrow> ServerEvent \<Rightarrow> delivery list" where
  \<comment> \<open>\<^verbatim>\<open>socket.to(room).emit(event)\<close>: every socket of the room but the sender\<close>
  "socketToEmit gw socket room event =
     map (\<lambda>member. (member, event)) (filter (\<lambda>member. member \<noteq> socket) (rooms gw room))"

definition sessionNotFound :: ServerEvent where
  "sessionNotFound = ErrorEvent ''Session not found'' ''SESSION_NOT_FOUND'' None"

definition orElse :: "string \<Rightarrow> string \<Rightarrow> string" where
  \<comment> \<open>\<^verbatim>\<open>a || b\<close> on strings: the empty string is falsy\<close>
  "orElse a b = (if a = [] then b else a)"

definition onSessionReconnect ::
  "string \<Rightarrow> string \<Rightarrow> string \<Rightarrow> Gateway \<Rightarrow> Gateway \<times> delivery list" where
  "onSessionReconnect socket sessionId participantId gw =
     (case getSession sessionId (storyManager gw) of
        None \<Rightarrow> (gw, socketEmit socket sessionNotFound)
      | Some session \<Rightarrow>
          (let gw1 = socketJoin socket sessionId gw;
               gw2 = gw1\<lparr>socketData := (socketData gw1)(socket \<mapsto> (sessionId, participantId))\<rparr>
           in (gw2, socketEmit socket (SessionUpdated session)
                    @ socketEmit socket (SessionReconnected sessionId))))"

text \<open>
  The events \<^verbatim>\<open>session:created\<close> and \<^verbatim>\<open>session:updated\<close> carry the session object itself, which
  \<^verbatim>\<open>addParticipant\<close> has mutated by then: the payload is the session as the manager holds it
  after the call.
\<close>

definition onSessionCreate ::
  "string \<Rightarrow> string \<Rightarrow> string option \<Rightarrow> string \<Rightarrow> string \<Rightarrow> int \<Rightarrow> Gateway
     \<Rightarrow> Gateway \<times> delivery list" where
  "onSessionCreate socket title startingPrompt userName uuid now gw =
     (case createSession title startingPrompt uuid now (storyManager gw) of
        (session, m1) \<Rightarrow>
          (let participant =
                 \<lparr>p_id = socket, p_name = orElse userName ''Anonymous'', p_joinedAt = now\<rparr>;
               m2 = addParticipant (s_id session) participant now m1;
               gw1 = socketJoin socket (s_id session) (gw\<lparr>storyManager := m2\<rparr>);
               gw2 = gw1\<lparr>socketData := (socketData gw1)(socket \<mapsto> (s_id session, socket))\<rparr>;
               payload = (case getSession (s_id session) m2 of
                            Some mutated \<Rightarrow> mutated | None \<Rightarrow> session)
           in (gw2, socketEmit socket (SessionCreated payload))))"

definition onSessionJoin ::
  "string \<Rightarrow> string \<Rightarrow> string \<Rightarrow> int \<Rightarrow> Gateway \<Rightarrow> Gateway \<times> delivery list" where
  "onSessionJoin socket sessionId userName now gw =
     (case getSession sessionId (storyManager gw) of
        None \<Rightarrow> (gw, socketEmit socket sessionNotFound)
      | Some session \<Rightarrow>
          (let participant =
                 \<lparr>p_id = socket, p_name = orElse userName ''Anonymous'', p_joinedAt = now\<rparr>;
               m1 = addParticipant sessionId participant now (storyManager gw);
               gw1 = socketJoin socket sessionId (gw\<lparr>storyManager := m1\<rparr>);
               gw2 = gw1\<lparr>socketData := (socketData gw1)(socket \<mapsto> (sessionId, socket))\<rparr>;
               payload = (case getSession sessionId m1 of
                            Some mutated \<Rightarrow> mutated | None \<Rightarrow> session)
           in (gw2, socketEmit socket (SessionUpdated payload)
                    @ socketToEmit gw2 socket sessionId (ParticipantJoined participant))))"

text \<open>
  The handler of \<^verbatim>\<open>segment:add\<close> is asynchronous. Up to the \<^verbatim>\<open>await\<close> it runs in one turn:
  \<^verbatim>\<open>onSegmentAdd\<close>, which also returns the call of the generation collaborator it makes, if
  any (the segments of the context that \<^verbatim>\<open>buildNarrativeContext\<close> wraps). The rest runs when
  the promise of \<^verbatim>\<open>generateHorrorElement\<close> settles, with the horror element or with the
  message of the error it rejected with: \<^verbatim>\<open>onHorrorElementSettled\<close>, in the state of that
  later turn.
\<close>

definition newUserSegment :: "string \<Rightarrow> string \<Rightarrow> ValidationResult \<Rightarrow> string \<Rightarrow> int \<Rightarrow> Gateway
     \<Rightarrow> StorySegment" where
  "newUserSegment socket content validationResult uuid now gw =
     \<lparr>seg_id = uuid,
      seg_content = (case v_sanitized validationResult of
                       Some sanitized \<Rightarrow> orElse sanitized content | None \<Rightarrow> content),
      seg_contributorId = (case socketData gw socket of
                             Some (sessionId, participantId) \<Rightarrow> orElse participantId socket
                           | None \<Rightarrow> socket),
      seg_contributorType = User, seg_timestamp = now, seg_moodTags = []\<rparr>"

definition onSegmentAdd ::
  "string \<Rightarrow> string \<Rightarrow> string \<Rightarrow> string \<Rightarrow> int \<Rightarrow> Gateway
     \<Rightarrow> Gateway \<times> delivery list \<times> StorySegment list option" where
  "onSegmentAdd socket sessionId content uuid now gw =
     (let validationResult = validateSegment content
      in if \<not> v_valid validationResult
         then (gw,
               socketEmit socket
                 (ErrorEvent (case v_error validationResult of
                                Some message \<Rightarrow> orElse message ''Invalid content''
                              | None \<Rightarrow> ''Invalid content'')
                    ''CONTENT_VALIDATION_ERROR'' None),
               None)
         else (case getSession sessionId (storyManager gw) of
                 None \<Rightarrow> (gw, socketEmit socket sessionNotFound, None)
               | Some session \<Rightarrow>
                   (let segment = newUserSegment socket content validationResult uuid now gw;
                        gw1 = gw\<lparr>storyManager :=
                                 addSegment sessionId segment now (storyManager gw)\<rparr>;
                        emitted = ioToEmit gw1 sessionId (SegmentAdded segment)
                                  @ socketEmit socket (SegmentAdded segment)
                                  @ socketEmit socket (SegmentAcknowledged (seg_id segment))
                    in (case getSession sessionId (storyManager gw1) of
                          None \<Rightarrow> (gw1, emitted, None)
                        | Some updatedSession \<Rightarrow>
                            (let userSegments =
                                   filter (\<lambda>s. seg_contributorType s = User)
                                     (s_segments updatedSession)
                             in if length userSegments > 0 \<and> length userSegments mod 3 = 0
                                then (gw1, emitted, Some (s_segments updatedSession))
                                else (gw1, emitted, None))))))"

definition onHorrorElementSettled ::
  "string \<Rightarrow> string + HorrorElement \<Rightarrow> string \<Rightarrow> int \<Rightarrow> Gateway \<Rightarrow> Gateway \<times> delivery list" where
  "onHorrorElementSettled sessionId settled uuid now gw =
     (case settled of
        Inr horrorElement \<Rightarrow>
          (let aiSegment =
                 \<lparr>seg_id = uuid, seg_content = h_content horrorElement,
                  seg_contributorId = ''ai-coauthor'', seg_contributorType = Ai,
                  seg_timestamp = now, seg_moodTags = h_tags horrorElement\<rparr>;
               gw1 = gw\<lparr>storyManager :=
                        addSegment sessionId aiSegment now (storyManager gw)\<rparr>
           in (gw1, ioToEmit gw1 sessionId (SegmentAdded aiSegment)))
      | Inl aiError \<Rightarrow>
          (gw, ioToEmit gw sessionId
                 (ErrorEvent ''AI co-author failed to generate content'' ''AI_GENERATION_ERROR''
                    (Some aiError))))"

text \<open>The events the gateway serves, with what the environment supplies to each.\<close>

datatype GatewayInput =
    Reconnect string string string
  | Create string string "string option" string string int
  | Join string string string int
  | AddSegment string string string string int
  | HorrorElementSettled string "string + HorrorElement" string int

fun handle :: "GatewayInput \<Rightarrow> Gateway \<Rightarrow> Gateway \<times> delivery list" where
  "handle (Reconnect socket sessionId participantId) gw =
     onSessionReconnect socket sessionId participantId gw"
| "handle (Create socket title startingPrompt userName uuid now) gw =
     onSessionCreate socket title startingPrompt userName uuid now gw"
| "handle (Join socket sessionId userName now) gw = onSessionJoin socket sessionId userName now gw"
| "handle (AddSegment socket sessionId content uuid now) gw =
     (case onSegmentAdd socket sessionId content uuid now gw of
        (gw1, emitted, generation) \<Rightarrow> (gw1, emitted))"
| "handle (HorrorElementSettled sessionId settled uuid now) gw =
     onHorrorElementSettled sessionId settled uuid now gw"

fun run :: "GatewayInput list \<Rightarrow> Gateway \<Rightarrow> Gateway \<times> delivery list" where
  "run [] gw = (gw, [])"
| "run (input # inputs) gw =
     (case handle input gw of
        (gw1, emitted) \<Rightarrow> (case run inputs gw1 of (gw2, later) \<Rightarrow> (gw2, emitted @ later)))"

definition received :: "string \<Rightarrow> delivery list \<Rightarrow> ServerEvent list" where
  \<comment> \<open>what one socket gets, in order\<close>
  "received socket deliveries = map snd (filter (\<lambda>d. fst d = socket) deliveries)"

fun segmentsAdded :: "ServerEvent list \<Rightarrow> StorySegment list" where
  \<comment> \<open>the payloads of the \<^verbatim>\<open>segment:added\<close> events among them\<close>
  "segmentsAdded [] = []"
| "segmentsAdded (SegmentAdded segment # events) = segment # segmentsAdded events"
| "segmentsAdded (event # events) = segmentsAdded events"

text \<open>
  The calls of \<^verbatim>\<open>storyManager.addSegment\<close> that the handlers make while they serve the inputs,
  in order: the session id, the members of its room at that moment, the socket that asked
  (none for a segment of the co-author) and the segment.
\<close>

definition appended :: "GatewayInput \<Rightarrow> Gateway \<Rightarrow> (string \<times> string list \<times> string option \<times> StorySegment) list" where
  "appended input gw =
     (case input of
        AddSegment socket sessionId content uuid now \<Rightarrow>
          (if v_valid (validateSegment content) \<and> getSession sessionId (storyManager gw) \<noteq> None
           then [(sessionId, rooms gw sessionId, Some socket,
                  newUserSegment socket content (validateSegment content) uuid now gw)]
           else [])
      | HorrorElementSettled sessionId (Inr horrorElement) uuid now \<Rightarrow>
          [(sessionId, rooms gw sessionId, None,
            \<lparr>seg_id = uuid, seg_content = h_content horrorElement,
             seg_contributorId = ''ai-coauthor'', seg_contributorType = Ai,
             seg_timestamp = now, seg_moodTags = h_tags horrorElement\<rparr>)]
      | _ \<Rightarrow> [])"

fun appendedDuring ::
  "GatewayInput list \<Rightarrow> Gateway \<Rightarrow> (string \<times> string list \<times> string option \<times> StorySegment) list" where
  "appendedDuring [] gw = []"
| "appendedDuring (input # inputs) gw =
     appended input gw @ appendedDuring inputs (fst (handle input gw))"

definition copiesFor :: "string \<Rightarrow> string \<times> string list \<times> string option \<times> StorySegment \<Rightarrow> StorySegment list" where
  \<comment> \<open>one copy through the room for each membership, one more for the socket that asked\<close>
  "copiesFor socket a =
     (case a of (sessionId, members, sender, segment) \<Rightarrow>
        replicate (count_list members socket + (if sender = Some socket then 1 else 0)) segment)"

text \<open>What every handler keeps: the logs are in chronological order, a room lists a socket once.\<close>

definition chronological :: "StoryManager \<Rightarrow> bool" where
  "chronological m \<longleftrightarrow>
     (\<forall>sessionId session. sessions m sessionId = Some session \<longrightarrow>
        sorted (map seg_timestamp (s_segments session)))"

definition wellFormed :: "Gateway \<Rightarrow> bool" where
  "wellFormed gw \<longleftrightarrow> chronological (storyManager gw) \<and> (\<forall>room. distinct (rooms gw room))"

text \<open>
  The two-client scenario of the specification: a first client creates the session
  \<open>Test\<close>, a second one joins it, the first adds the segment \<open>A\<close> and the second the
  segment \<open>B\<close>.
\<close>

definition twoClientScenario :: "GatewayInput list" where
  "twoClientScenario =
     [Create ''client-1'' ''Test'' None ''Ann'' ''session-1'' 1000,
      Join ''client-2'' ''session-1'' ''Bob'' 2000,
      AddSegment ''client-1'' ''session-1'' ''A'' ''segment-1'' 3000,
      AddSegment ''client-2'' ''session-1'' ''B'' ''segment-2'' 4000]"
section \<open>Properties of the offline queue\<close>

lemma fromJSON_toJSON: "fromJSON (toJSON item) = item"
  by (simp add: fromJSON_def toJSON_def)

lemma queue_saveToStorage: "queue (saveToStorage st) = queue st"
  by (simp add: saveToStorage_def split: option.splits)

lemma saveToStorage_accepted:
  "ls_accepts (localStorage st) (QueueText (map toJSON (queue st))) \<Longrightarrow>
   saveToStorage st =
     st\<lparr>localStorage := (localStorage st)\<lparr>ls_item := Some (QueueText (map toJSON (queue st)))\<rparr>\<rparr>"
  by (simp add: saveToStorage_def setItem_def)

lemma saveToStorage_refused:
  "\<not> ls_accepts (localStorage st) (QueueText (map toJSON (queue st))) \<Longrightarrow> saveToStorage st = st"
  by (simp add: saveToStorage_def setItem_def)

lemma accepts_saveToStorage:
  "ls_accepts (localStorage (saveToStorage st)) = ls_accepts (localStorage st)"
  by (simp add: saveToStorage_def setItem_def)

lemma localStorage_newOfflineQueue: "localStorage (newOfflineQueue storage) = storage"
  by (simp add: newOfflineQueue_def loadFromStorage_def split: option.splits storage_item.splits)

text \<open>The storage mirrors the queue when a fresh instance built on it holds the same entries.\<close>

lemma reload_saveToStorage:
  "ls_accepts (localStorage st) (QueueText (map toJSON (queue st))) \<Longrightarrow>
   getItem (localStorage (saveToStorage st)) = Some (QueueText (map toJSON (queue (saveToStorage st))))
   \<and> queue (newOfflineQueue (localStorage (saveToStorage st))) = queue (saveToStorage st)"
  by (simp add: saveToStorage_accepted newOfflineQueue_def loadFromStorage_def getItem_def
      fromJSON_toJSON comp_def)





lemma sameEntry_retryCount:
  "sameEntry sessionId timestamp (item\<lparr>q_retryCount := n\<rparr>) = sameEntry sessionId timestamp item"
  by (simp add: sameEntry_def)

lemma find_incrementFound:
  "find (sameEntry s t) items = Some item \<Longrightarrow>
   find (sameEntry s t) (incrementFound (sameEntry s t) items) =
     Some (item\<lparr>q_retryCount := q_retryCount item + 1\<rparr>)"
  by (induction items) (auto simp: sameEntry_retryCount split: if_splits)

lemma filter_incrementFound:
  "filter (\<lambda>item. \<not> sameEntry s t item) (incrementFound (sameEntry s t) items) =
   filter (\<lambda>item. \<not> sameEntry s t item) items"
  by (induction items) (auto simp: sameEntry_retryCount)

lemma incrementRetry_found:
  assumes "find (sameEntry s t) (queue st) = Some item"
  shows "incrementRetry s t st =
     (if maxRetries \<le> q_retryCount item + 1
      then (False, saveToStorage (st\<lparr>queue := filter (\<lambda>item. \<not> sameEntry s t item) (queue st)\<rparr>))
      else (True, saveToStorage (st\<lparr>queue := incrementFound (sameEntry s t) (queue st)\<rparr>)))"
  using assms by (simp add: incrementRetry_def dequeue_def Let_def filter_incrementFound)

lemma incrementRetry_three_calls:
  assumes "find (sameEntry s t) (queue st) = Some item" and "q_retryCount item = 0"
  shows "fst (incrementRetry s t st)"
    and "fst (incrementRetry s t (snd (incrementRetry s t st)))"
    and "\<not> fst (incrementRetry s t (snd (incrementRetry s t (snd (incrementRetry s t st)))))"
    and "filter (sameEntry s t)
           (queue (snd (incrementRetry s t (snd (incrementRetry s t (snd (incrementRetry s t st))))))) = []"
proof -
  let ?P = "sameEntry s t"
  let ?st1 = "snd (incrementRetry s t st)"
  let ?st2 = "snd (incrementRetry s t ?st1)"
  have r1: "incrementRetry s t st =
      (True, saveToStorage (st\<lparr>queue := incrementFound ?P (queue st)\<rparr>))"
    using assms by (simp add: incrementRetry_found maxRetries_def)
  have f1: "find ?P (queue ?st1) = Some (item\<lparr>q_retryCount := 1\<rparr>)"
    using find_incrementFound [OF assms(1)] assms(2) by (simp add: r1 queue_saveToStorage)
  have r2: "incrementRetry s t ?st1 =
      (True, saveToStorage (?st1\<lparr>queue := incrementFound ?P (queue ?st1)\<rparr>))"
    using f1 by (simp add: incrementRetry_found maxRetries_def)
  have f2: "find ?P (queue ?st2) = Some (item\<lparr>q_retryCount := 2\<rparr>)"
    using find_incrementFound [OF f1] by (simp add: r2 queue_saveToStorage)
  have r3: "incrementRetry s t ?st2 =
      (False, saveToStorage (?st2\<lparr>queue := filter (\<lambda>item. \<not> ?P item) (queue ?st2)\<rparr>))"
    using f2 by (simp add: incrementRetry_found maxRetries_def)
  show "fst (incrementRetry s t st)" by (simp add: r1)
  show "fst (incrementRetry s t ?st1)" by (simp add: r2)
  show "\<not> fst (incrementRetry s t ?st2)" by (simp add: r3)
  show "filter ?P (queue (snd (incrementRetry s t ?st2))) = []"
    by (simp add: r3 queue_saveToStorage)
qed

text \<open>
  Claim C8, as stated, for every queued entry with retry count 0: it fails for an entry
  that shares its \<open>(sessionId, timestamp)\<close> pair with an earlier entry. After two retries
  of a first entry, a second entry enqueued at the same clock reading is queued with retry
  count 0, and the first call for its pair already answers \<open>False\<close> (and drops both). And
  a call that answers \<open>True\<close> has not persisted the queue when the storage refuses the write:
  on a storage without room the retried entry is in the queue and nothing is stored.
\<close>

theorem incrementRetry_shadowed_entry:
  "\<lparr>q_sessionId = ''s'', q_content = ''b'', q_timestamp = 5, q_retryCount = 0\<rparr>
     \<in> set (queue (calls [Enqueue ''s'' ''a'' 5, IncrementRetry ''s'' 5, IncrementRetry ''s'' 5,
                           Enqueue ''s'' ''b'' 5] (newOfflineQueue emptyStorage)))
   \<and> \<not> fst (incrementRetry ''s'' 5
         (calls [Enqueue ''s'' ''a'' 5, IncrementRetry ''s'' 5, IncrementRetry ''s'' 5,
                 Enqueue ''s'' ''b'' 5] (newOfflineQueue emptyStorage)))
   \<and> queue (snd (incrementRetry ''s'' 5
         (calls [Enqueue ''s'' ''a'' 5, IncrementRetry ''s'' 5, IncrementRetry ''s'' 5,
                 Enqueue ''s'' ''b'' 5] (newOfflineQueue emptyStorage)))) = []
   \<and> fst (incrementRetry ''s'' 5 (enqueue ''s'' ''a'' 5 (newOfflineQueue fullStorage)))
   \<and> queue (snd (incrementRetry ''s'' 5 (enqueue ''s'' ''a'' 5 (newOfflineQueue fullStorage)))) =
       [\<lparr>q_sessionId = ''s'', q_content = ''a'', q_timestamp = 5, q_retryCount = 1\<rparr>]
   \<and> getItem (localStorage
         (snd (incrementRetry ''s'' 5 (enqueue ''s'' ''a'' 5 (newOfflineQueue fullStorage))))) = None"
  by (simp add: newOfflineQueue_def loadFromStorage_def enqueue_def incrementRetry_def
      saveToStorage_def getItem_def setItem_def emptyStorage_def fullStorage_def sameEntry_def
      maxRetries_def dequeue_def Let_def)

text \<open>
  Claim C8, amended: the entry is the one that \<^verbatim>\<open>find\<close> selects for the pair, the first entry
  of the queue with that \<open>(sessionId, timestamp)\<close>. When it has retry count 0, three calls of
  \<^verbatim>\<open>incrementRetry\<close> answer true, true, false, and afterwards no entry with the pair is
  queued. In general, when an entry matches, the call increments the first match; exactly
  when the incremented count reaches \<^verbatim>\<open>maxRetries\<close> it removes every entry with the pair and
  answers false, otherwise it answers true; in both cases it ends in \<^verbatim>\<open>saveToStorage\<close> of the
  queue it leaves. When the storage accepts that write, the storage holds the text of this
  queue and a fresh instance reloads exactly it; when the storage refuses the write, the
  storage is left as it was.
\<close>

theorem incrementRetry_exhaustion:
  assumes "find (sameEntry sessionId timestamp) (queue st) = Some item"
  shows "(q_retryCount item = 0 \<longrightarrow>
            fst (incrementRetry sessionId timestamp st)
          \<and> fst (incrementRetry sessionId timestamp (snd (incrementRetry sessionId timestamp st)))
          \<and> \<not> fst (incrementRetry sessionId timestamp
                (snd (incrementRetry sessionId timestamp
                  (snd (incrementRetry sessionId timestamp st)))))
          \<and> filter (sameEntry sessionId timestamp)
               (queue (snd (incrementRetry sessionId timestamp
                 (snd (incrementRetry sessionId timestamp
                   (snd (incrementRetry sessionId timestamp st))))))) = [])
       \<and> incrementRetry sessionId timestamp st =
           (if maxRetries \<le> q_retryCount item + 1
            then (False, saveToStorage
                    (st\<lparr>queue := filter (\<lambda>item. \<not> sameEntry sessionId timestamp item) (queue st)\<rparr>))
            else (True, saveToStorage
                    (st\<lparr>queue := incrementFound (sameEntry sessionId timestamp) (queue st)\<rparr>)))
       \<and> (ls_accepts (localStorage st)
             (QueueText (map toJSON (queue (snd (incrementRetry sessionId timestamp st))))) \<longrightarrow>
            getItem (localStorage (snd (incrementRetry sessionId timestamp st))) =
              Some (QueueText (map toJSON (queue (snd (incrementRetry sessionId timestamp st)))))
          \<and> queue (newOfflineQueue (localStorage (snd (incrementRetry sessionId timestamp st)))) =
              queue (snd (incrementRetry sessionId timestamp st)))
       \<and> (\<not> ls_accepts (localStorage st)
               (QueueText (map toJSON (queue (snd (incrementRetry sessionId timestamp st))))) \<longrightarrow>
            localStorage (snd (incrementRetry sessionId timestamp st)) = localStorage st)"
proof -
  let ?kept = "st\<lparr>queue := filter (\<lambda>item. \<not> sameEntry sessionId timestamp item) (queue st)\<rparr>"
  let ?retried = "st\<lparr>queue := incrementFound (sameEntry sessionId timestamp) (queue st)\<rparr>"
  let ?left = "snd (incrementRetry sessionId timestamp st)"
  note result = incrementRetry_found [OF assms]
  have three: "q_retryCount item = 0 \<longrightarrow>
            fst (incrementRetry sessionId timestamp st)
          \<and> fst (incrementRetry sessionId timestamp (snd (incrementRetry sessionId timestamp st)))
          \<and> \<not> fst (incrementRetry sessionId timestamp
                (snd (incrementRetry sessionId timestamp
                  (snd (incrementRetry sessionId timestamp st)))))
          \<and> filter (sameEntry sessionId timestamp)
               (queue (snd (incrementRetry sessionId timestamp
                 (snd (incrementRetry sessionId timestamp
                   (snd (incrementRetry sessionId timestamp st))))))) = []"
    using incrementRetry_three_calls [OF assms] by blast
  have saved: "?left = saveToStorage ?kept \<or> ?left = saveToStorage ?retried"
    by (simp add: result)
  have same: "localStorage ?kept = localStorage st" "localStorage ?retried = localStorage st"
    by simp_all
  have accepted: "getItem (localStorage ?left) = Some (QueueText (map toJSON (queue ?left)))
          \<and> queue (newOfflineQueue (localStorage ?left)) = queue ?left"
    if "ls_accepts (localStorage st) (QueueText (map toJSON (queue ?left)))"
    using saved
  proof
    assume l: "?left = saveToStorage ?kept"
    have "ls_accepts (localStorage ?kept) (QueueText (map toJSON (queue ?kept)))"
      using that by (simp add: l queue_saveToStorage)
    from reload_saveToStorage [OF this] show ?thesis by (simp only: l)
  next
    assume l: "?left = saveToStorage ?retried"
    have "ls_accepts (localStorage ?retried) (QueueText (map toJSON (queue ?retried)))"
      using that by (simp add: l queue_saveToStorage)
    from reload_saveToStorage [OF this] show ?thesis by (simp only: l)
  qed
  have refused: "localStorage ?left = localStorage st"
    if "\<not> ls_accepts (localStorage st) (QueueText (map toJSON (queue ?left)))"
    using saved
  proof
    assume l: "?left = saveToStorage ?kept"
    have "\<not> ls_accepts (localStorage ?kept) (QueueText (map toJSON (queue ?kept)))"
      using that by (simp add: l queue_saveToStorage)
    from saveToStorage_refused [OF this] show ?thesis by (simp only: l same)
  next
    assume l: "?left = saveToStorage ?retried"
    have "\<not> ls_accepts (localStorage ?retried) (QueueText (map toJSON (queue ?retried)))"
      using that by (simp add: l queue_saveToStorage)
    from saveToStorage_refused [OF this] show ?thesis by (simp only: l same)
  qed
  from three result accepted refused show ?thesis by blast
qed

theorem incrementRetry_exhaustion_witness:
  "find (sameEntry ''s'' 5) (queue (enqueue ''s'' ''a'' 5 (newOfflineQueue emptyStorage))) =
     Some \<lparr>q_sessionId = ''s'', q_content = ''a'', q_timestamp = 5, q_retryCount = 0\<rparr>
   \<and> fst (incrementRetry ''s'' 5 (enqueue ''s'' ''a'' 5 (newOfflineQueue emptyStorage)))
   \<and> \<not> fst (incrementRetry ''s'' 5 (snd (incrementRetry ''s'' 5
         (snd (incrementRetry ''s'' 5 (enqueue ''s'' ''a'' 5 (newOfflineQueue emptyStorage)))))))
   \<and> queue (newOfflineQueue (localStorage
         (snd (incrementRetry ''s'' 5 (enqueue ''s'' ''a'' 5 (newOfflineQueue emptyStorage)))))) =
       queue (snd (incrementRetry ''s'' 5 (enqueue ''s'' ''a'' 5 (newOfflineQueue emptyStorage))))"
proof -
  have found: "find (sameEntry ''s'' 5) (queue (enqueue ''s'' ''a'' 5 (newOfflineQueue emptyStorage))) =
      Some \<lparr>q_sessionId = ''s'', q_content = ''a'', q_timestamp = 5, q_retryCount = 0\<rparr>"
    by (simp add: enqueue_def newOfflineQueue_def loadFromStorage_def saveToStorage_def
        getItem_def setItem_def emptyStorage_def sameEntry_def)
  have zero: "q_retryCount
      \<lparr>q_sessionId = ''s'', q_content = ''a'', q_timestamp = 5, q_retryCount = 0\<rparr> = 0"
    by simp
  have room: "ls_accepts (localStorage (enqueue ''s'' ''a'' 5 (newOfflineQueue emptyStorage))) v" for v
    by (simp add: enqueue_def accepts_saveToStorage localStorage_newOfflineQueue emptyStorage_def)
  from incrementRetry_exhaustion [OF found] zero room
  have "fst (incrementRetry ''s'' 5 (enqueue ''s'' ''a'' 5 (newOfflineQueue emptyStorage)))
      \<and> \<not> fst (incrementRetry ''s'' 5 (snd (incrementRetry ''s'' 5
            (snd (incrementRetry ''s'' 5 (enqueue ''s'' ''a'' 5 (newOfflineQueue emptyStorage)))))))
      \<and> queue (newOfflineQueue (localStorage
            (snd (incrementRetry ''s'' 5 (enqueue ''s'' ''a'' 5 (newOfflineQueue emptyStorage)))))) =
          queue (snd (incrementRetry ''s'' 5 (enqueue ''s'' ''a'' 5 (newOfflineQueue emptyStorage))))"
    by blast
  with found show ?thesis by blast
qed




text \<open>
  Claim C10: a call of \<^verbatim>\<open>incrementRetry\<close> whose \<open>(sessionId, timestamp)\<close> pair matches no queued
  entry answers false and returns the state as it was, queue and storage alike; a call that
  exhausts the retries of an entry answers the same false.
\<close>

theorem incrementRetry_unknown_entry:
  assumes "\<forall>item\<in>set (queue st). \<not> sameEntry sessionId timestamp item"
    and "find (sameEntry sessionId' timestamp') (queue st') = Some item'"
    and "maxRetries \<le> q_retryCount item' + 1"
  shows "incrementRetry sessionId timestamp st = (False, st)
       \<and> fst (incrementRetry sessionId' timestamp' st') = fst (incrementRetry sessionId timestamp st)"
proof -
  have "find (sameEntry sessionId timestamp) (queue st) = None"
    using assms(1) by (simp add: find_None_iff)
  then have "incrementRetry sessionId timestamp st = (False, st)"
    by (simp add: incrementRetry_def)
  moreover have "\<not> fst (incrementRetry sessionId' timestamp' st')"
    using assms(2,3) by (simp add: incrementRetry_def Let_def)
  ultimately show ?thesis by simp
qed

theorem incrementRetry_unknown_entry_witness:
  "filter (sameEntry ''s'' 6) (queue (enqueue ''s'' ''a'' 5 (newOfflineQueue emptyStorage))) = []
   \<and> incrementRetry ''s'' 6 (enqueue ''s'' ''a'' 5 (newOfflineQueue emptyStorage)) =
       (False, enqueue ''s'' ''a'' 5 (newOfflineQueue emptyStorage))
   \<and> \<not> fst (incrementRetry ''s'' 5
         \<lparr>queue = [\<lparr>q_sessionId = ''s'', q_content = ''a'', q_timestamp = 5, q_retryCount = 2\<rparr>],
          localStorage = emptyStorage\<rparr>)"
proof -
  have none: "\<forall>item\<in>set (queue (enqueue ''s'' ''a'' 5 (newOfflineQueue emptyStorage))).
      \<not> sameEntry ''s'' 6 item"
    by (simp add: enqueue_def newOfflineQueue_def loadFromStorage_def saveToStorage_def
        getItem_def setItem_def emptyStorage_def sameEntry_def)
  have found: "find (sameEntry ''s'' 5)
      (queue \<lparr>queue = [\<lparr>q_sessionId = ''s'', q_content = ''a'', q_timestamp = 5, q_retryCount = 2\<rparr>],
              localStorage = emptyStorage\<rparr>) =
      Some \<lparr>q_sessionId = ''s'', q_content = ''a'', q_timestamp = 5, q_retryCount = 2\<rparr>"
    by (simp add: sameEntry_def)
  have exhausted: "maxRetries \<le>
      q_retryCount \<lparr>q_sessionId = ''s'', q_content = ''a'', q_timestamp = 5, q_retryCount = 2\<rparr> + 1"
    by (simp add: maxRetries_def)
  have "filter (sameEntry ''s'' 6) (queue (enqueue ''s'' ''a'' 5 (newOfflineQueue emptyStorage))) = []"
    using none by (simp add: filter_empty_conv)
  then show ?thesis
    using incrementRetry_unknown_entry [OF none found exhausted] by simp
qed

section \<open>Properties of the reconnection manager\<close>

subsection \<open>Rounding to a double\<close>

lemma roundTiesToEven_int: "roundTiesToEven (of_int k) = k"
  by (simp add: roundTiesToEven_def)

lemma roundTiesToEven_range: "\<lfloor>q\<rfloor> \<le> roundTiesToEven q \<and> roundTiesToEven q \<le> \<lfloor>q\<rfloor> + 1"
  by (simp add: roundTiesToEven_def Let_def)

lemma roundTiesToEven_mono: "q \<le> q' \<Longrightarrow> roundTiesToEven q \<le> roundTiesToEven q'"
proof -
  assume le: "q \<le> q'"
  have f: "\<lfloor>q\<rfloor> \<le> \<lfloor>q'\<rfloor>" using le by (rule floor_mono)
  show ?thesis
  proof (cases "\<lfloor>q\<rfloor> = \<lfloor>q'\<rfloor>")
    case True
    then show ?thesis using le by (auto simp: roundTiesToEven_def Let_def)
  next
    case False
    then have "\<lfloor>q\<rfloor> + 1 \<le> \<lfloor>q'\<rfloor>" using f by simp
    then show ?thesis using roundTiesToEven_range [of q] roundTiesToEven_range [of q'] by linarith
  qed
qed

lemma exponentOf_log: "0 < x \<Longrightarrow> exponentOf x = \<lfloor>log 2 x\<rfloor>"
proof (induction x rule: exponentOf.induct)
  case (1 x)
  consider "x < 1" | "2 \<le> x" | "1 \<le> x" "x < 2" by linarith
  then show ?case
  proof cases
    case 1
    have "log 2 (x * 2) = log 2 x + 1" using \<open>0 < x\<close> by (simp add: log_mult)
    moreover have "exponentOf (x * 2) = \<lfloor>log 2 (x * 2)\<rfloor>"
      using "1.IH"(1) "1.prems" 1 by simp
    ultimately show ?thesis
      using "1.prems" 1 by (subst exponentOf.simps) simp
  next
    case 2
    have "log 2 (x / 2) = log 2 x - 1" using \<open>0 < x\<close> by (simp add: log_divide)
    moreover have "exponentOf (x / 2) = \<lfloor>log 2 (x / 2)\<rfloor>"
      using "1.IH"(2) "1.prems" 2 by simp
    ultimately show ?thesis
      using "1.prems" 2 by (subst exponentOf.simps) simp
  next
    case 3
    have "0 \<le> log 2 x" using 3 by simp
    moreover have "log 2 x < log 2 2" using 3 by (subst log_less_cancel_iff) simp_all
    ultimately have "\<lfloor>log 2 x\<rfloor> = 0" by (simp add: floor_eq_iff)
    then show ?thesis
      using "1.prems" 3 by (subst exponentOf.simps) simp
  qed
qed

lemma roundMagnitude_powr:
  "roundMagnitude x =
     of_int (roundTiesToEven (x / 2 powr of_int (exponentOf x - 52)))
       * 2 powr of_int (exponentOf x - 52)"
  by (simp only: roundMagnitude_def powr_real_of_int' [of 2, simplified])

lemma exponentOf_bounds:
  assumes "0 < x"
  shows "2 powr of_int (exponentOf x) \<le> x" and "x < 2 powr of_int (exponentOf x + 1)"
  using floor_log_eq_powr_iff [of x 2 "exponentOf x"] assms
  by (simp_all add: exponentOf_log)

lemma exponentOf_mono: "0 < x \<Longrightarrow> x \<le> y \<Longrightarrow> exponentOf x \<le> exponentOf y"
  by (simp add: exponentOf_log floor_mono)

lemma roundMagnitude_bounds:
  assumes "0 < x"
  shows "2 powr of_int (exponentOf x) \<le> roundMagnitude x"
    and "roundMagnitude x \<le> 2 powr of_int (exponentOf x + 1)"
proof -
  let ?e = "exponentOf x"
  let ?u = "2 powr of_int (?e - 52) :: real"
  have u: "0 < ?u" by simp
  have lo: "2 powr of_int ?e = of_int (2 ^ 52) * ?u"
    by (simp add: powr_diff)
  have hi: "2 powr of_int (?e + 1) = of_int (2 ^ 53) * ?u"
    by (simp add: powr_diff powr_add)
  have "of_int (2 ^ 52) \<le> x / ?u"
    using exponentOf_bounds(1) [OF assms] lo u by (simp add: pos_le_divide_eq)
  then have "roundTiesToEven (of_int (2 ^ 52)) \<le> roundTiesToEven (x / ?u)" by (rule roundTiesToEven_mono)
  then have a: "2 ^ 52 \<le> roundTiesToEven (x / ?u)" by (simp only: roundTiesToEven_int)
  have "x / ?u \<le> of_int (2 ^ 53)"
    using exponentOf_bounds(2) [OF assms] hi u by (simp add: pos_divide_le_eq)
  then have "roundTiesToEven (x / ?u) \<le> roundTiesToEven (of_int (2 ^ 53))" by (rule roundTiesToEven_mono)
  then have b: "roundTiesToEven (x / ?u) \<le> 2 ^ 53" by (simp only: roundTiesToEven_int)
  have "of_int (2 ^ 52) * ?u \<le> of_int (roundTiesToEven (x / ?u)) * ?u"
    using a u by (intro mult_right_mono) simp_all
  then show "2 powr of_int ?e \<le> roundMagnitude x" by (simp only: lo roundMagnitude_powr)
  have "of_int (roundTiesToEven (x / ?u)) * ?u \<le> of_int (2 ^ 53) * ?u"
    using b u by (intro mult_right_mono) simp_all
  then show "roundMagnitude x \<le> 2 powr of_int (?e + 1)" by (simp only: hi roundMagnitude_powr)
qed

lemma roundMagnitude_mono:
  assumes "0 < x" and "x \<le> y"
  shows "roundMagnitude x \<le> roundMagnitude y"
proof (cases "exponentOf x = exponentOf y")
  case True
  let ?u = "2 powr of_int (exponentOf y - 52) :: real"
  have u: "0 < ?u" by simp
  have "x / ?u \<le> y / ?u" using assms(2) u by (simp add: divide_right_mono)
  then have "roundTiesToEven (x / ?u) \<le> roundTiesToEven (y / ?u)" by (rule roundTiesToEven_mono)
  then have "of_int (roundTiesToEven (x / ?u)) * ?u \<le> of_int (roundTiesToEven (y / ?u)) * ?u"
    using u by (intro mult_right_mono) simp_all
  then show ?thesis by (simp only: roundMagnitude_powr True)
next
  case False
  have y: "0 < y" using assms by simp
  have "exponentOf x + 1 \<le> exponentOf y"
    using False exponentOf_mono [OF assms] by simp
  then have "(2::real) powr of_int (exponentOf x + 1) \<le> 2 powr of_int (exponentOf y)"
    by (intro powr_mono) simp_all
  then show ?thesis
    using roundMagnitude_bounds(2) [OF assms(1)] roundMagnitude_bounds(1) [OF y] by linarith
qed

lemma roundMagnitude_pos: "0 < x \<Longrightarrow> 0 < roundMagnitude x"
  using roundMagnitude_bounds(1) [of x] powr_gt_zero [of 2 "of_int (exponentOf x)"]
  by (simp del: powr_gt_zero)

lemma toDouble_mono: "x \<le> y \<Longrightarrow> toDouble x \<le> toDouble y"
  using roundMagnitude_mono [of x y] roundMagnitude_mono [of "- y" "- x"]
    roundMagnitude_pos [of x] roundMagnitude_pos [of y]
    roundMagnitude_pos [of "- x"] roundMagnitude_pos [of "- y"]
  by (auto simp: toDouble_def)

lemma roundMagnitude_dyadic:
  assumes "0 < k" and "k < 2 ^ 53"
  shows "roundMagnitude (of_int k * 2 powr of_int m) = of_int k * 2 powr of_int m"
proof -
  let ?x = "of_int k * 2 powr of_int m :: real"
  let ?l = "\<lfloor>log 2 (of_int k)\<rfloor>"
  have k: "0 < (of_int k :: real)" using assms(1) by simp
  have "log 2 ?x = log 2 (of_int k) + of_int m"
    using k by (simp add: log_mult)
  moreover have "0 < ?x" using k by simp
  ultimately have e: "exponentOf ?x = ?l + m" by (simp add: exponentOf_log)
  have "(of_int k :: real) < of_int (2 ^ 53)" using assms(2) by (simp only: of_int_less_iff)
  then have "(of_int k :: real) < 2 powr 53" by simp
  then have "log 2 (of_int k) < log 2 (2 powr 53)"
    using k by (subst log_less_cancel_iff) simp_all
  moreover have "log 2 (2 powr 53) = (53::real)" by (rule log_powr_cancel) simp_all
  ultimately have "log 2 (of_int k) < 53" by (simp only:)
  then have l53: "?l \<le> 52" by linarith
  have "0 \<le> log 2 (of_int k)" using assms(1) by simp
  then have l0: "0 \<le> ?l" by simp
  define n where "n = nat (52 - ?l)"
  have n: "of_int m - of_int (?l + m - 52) = (of_nat n :: real)"
    using l53 by (simp add: n_def)
  have "?x / 2 powr of_int (?l + m - 52) = of_int k * 2 powr (of_int m - of_int (?l + m - 52))"
    by (simp only: powr_diff times_divide_eq_right)
  also have "\<dots> = of_int k * 2 ^ n" by (simp only: n powr_realpow)
  also have "\<dots> = of_int (k * 2 ^ n)" by simp
  finally have q: "?x / 2 powr of_int (?l + m - 52) = of_int (k * 2 ^ n)" .
  have "roundMagnitude ?x = of_int (k * 2 ^ n) * 2 powr of_int (?l + m - 52)"
    unfolding roundMagnitude_powr e q roundTiesToEven_int ..
  also have "\<dots> = ?x / 2 powr of_int (?l + m - 52) * 2 powr of_int (?l + m - 52)"
    by (simp only: q)
  also have "\<dots> = ?x" by simp
  finally show ?thesis .
qed

lemma toDouble_dyadic:
  assumes "\<bar>k\<bar> < 2 ^ 53"
  shows "toDouble (of_int k * 2 powr of_int m) = of_int k * 2 powr of_int m"
proof -
  have p: "0 < (2::real) powr of_int m" by simp
  consider "k = 0" | "0 < k" | "k < 0" by linarith
  then show ?thesis
  proof cases
    case 1
    then show ?thesis by (simp add: toDouble_def)
  next
    case 2
    then have "0 < of_int k * (2::real) powr of_int m" by simp
    then have "\<not> of_int k * (2::real) powr of_int m < 0" and "of_int k * (2::real) powr of_int m \<noteq> 0"
      by linarith+
    then show ?thesis
      unfolding toDouble_def using roundMagnitude_dyadic [of k m] 2 assms by simp
  next
    case 3
    then have "of_int k * (2::real) powr of_int m < 0" by (simp add: mult_neg_pos)
    then have "of_int k * (2::real) powr of_int m \<noteq> 0" by linarith
    then show ?thesis
      unfolding toDouble_def
      using roundMagnitude_dyadic [of "- k" m] 3 assms \<open>of_int k * (2::real) powr of_int m < 0\<close>
      by simp
  qed
qed

lemma toDouble_int: "\<bar>k\<bar> < 2 ^ 53 \<Longrightarrow> toDouble (of_int k) = of_int k"
  using toDouble_dyadic [of k 0] by simp

lemma toDouble_simple:
  "toDouble 0 = 0" "toDouble 1 = 1" "toDouble 2 = 2" "toDouble (- 1) = - 1"
  using toDouble_int [of 0] toDouble_int [of 1] toDouble_int [of 2] toDouble_int [of "- 1"]
  by simp_all

lemma toDouble_half: "\<bar>k\<bar> < 2 ^ 53 \<Longrightarrow> toDouble (of_int k / 2) = of_int k / 2"
  using toDouble_dyadic [of k "- 1"] by (simp add: powr_minus_divide)

subsection \<open>The delays\<close>

lemma cappedDelay_le: "cappedDelay n \<le> maxDelay"
  by (simp add: cappedDelay_def)

lemma cappedDelay_pos: "0 < cappedDelay n"
  by (simp add: cappedDelay_def exponentialDelay_def baseDelay_def maxDelay_def)

lemma exponentialDelay_mono: "m \<le> n \<Longrightarrow> exponentialDelay m \<le> exponentialDelay n"
  by (simp add: exponentialDelay_def baseDelay_def power_increasing)

lemma cappedDelay_mono: "m \<le> n \<Longrightarrow> cappedDelay m \<le> cappedDelay n"
  unfolding cappedDelay_def using exponentialDelay_mono [of m n] by (simp add: min_def)

text \<open>The capped delay is four times an integer: its quarter, and so its jitter range, is exact.\<close>

lemma cappedDelay_quarters:
  obtains k :: int where "cappedDelay n = 4 * of_int k" and "250 \<le> k" and "k \<le> 7500"
proof (cases "n < 5")
  case True
  then have "(2::int) ^ n \<le> 2 ^ 4" by (intro power_increasing) simp_all
  then have le: "(2::int) ^ n \<le> 16" by simp
  then have "(of_int (2 ^ n) :: real) \<le> of_int 16" by (simp only: of_int_le_iff)
  then have "(2::real) ^ n \<le> 16" by simp
  then have "cappedDelay n = 4 * of_int (250 * 2 ^ n)"
    by (simp add: cappedDelay_def exponentialDelay_def baseDelay_def maxDelay_def min_def)
  moreover have "250 \<le> 250 * (2::int) ^ n" by simp
  moreover have "250 * (2::int) ^ n \<le> 7500" using le by simp
  ultimately show ?thesis by (rule that)
next
  case False
  then have "(2::real) ^ 5 \<le> 2 ^ n" by (intro power_increasing) simp_all
  then have "(32::real) \<le> 2 ^ n" by simp
  then have "cappedDelay n = 4 * of_int 7500"
    by (simp add: cappedDelay_def exponentialDelay_def baseDelay_def maxDelay_def min_def)
  then show ?thesis by (rule that) simp_all
qed

lemma getNextDelay_bounds:
  assumes "0 \<le> r" and "r < 1"
  shows "3/4 * cappedDelay (attempt rm) \<le> fst (getNextDelay r rm)"
    and "fst (getNextDelay r rm) \<le> 5/4 * cappedDelay (attempt rm)"
proof -
  obtain k :: int where c: "cappedDelay (attempt rm) = 4 * of_int k"
    and k: "250 \<le> k" "k \<le> 7500"
    by (rule cappedDelay_quarters)
  have small: "\<bar>j\<bar> < 2 ^ 53" if "\<bar>j\<bar> \<le> 37500" for j :: int
    using that by simp
  define t where "t = toDouble (r * 2)"
  define u where "u = toDouble (t - 1)"
  define j where "j = toDouble (of_int k * u)"
  define d where "d = toDouble (4 * of_int k + j)"
  have "toDouble 0 \<le> t" unfolding t_def using assms by (intro toDouble_mono) simp
  then have t0: "0 \<le> t" by (simp only: toDouble_simple)
  have "t \<le> toDouble 2" unfolding t_def using assms by (intro toDouble_mono) simp
  then have t2: "t \<le> 2" by (simp only: toDouble_simple)
  have "toDouble (- 1) \<le> u" unfolding u_def using t0 by (intro toDouble_mono) simp
  then have u0: "- 1 \<le> u" by (simp only: toDouble_simple)
  have "u \<le> toDouble 1" unfolding u_def using t2 by (intro toDouble_mono) simp
  then have u1: "u \<le> 1" by (simp only: toDouble_simple)
  have kpos: "0 \<le> (of_int k :: real)" using k by simp
  have "of_int k * - 1 \<le> of_int k * u" using u0 kpos by (rule mult_left_mono)
  then have "toDouble (of_int (- k)) \<le> j" unfolding j_def by (intro toDouble_mono) simp
  moreover have "toDouble (of_int (- k)) = of_int (- k)"
    using k by (intro toDouble_int small) simp
  ultimately have j0: "- of_int k \<le> j" by simp
  have "of_int k * u \<le> of_int k * 1" using u1 kpos by (rule mult_left_mono)
  then have "j \<le> toDouble (of_int k)" unfolding j_def by (intro toDouble_mono) simp
  moreover have q: "toDouble (of_int k) = of_int k"
    using k by (intro toDouble_int small) simp
  ultimately have j1: "j \<le> of_int k" by simp
  have "toDouble (of_int (3 * k)) \<le> d" unfolding d_def using j0 by (intro toDouble_mono) simp
  moreover have "toDouble (of_int (3 * k)) = of_int (3 * k)"
    using k by (intro toDouble_int small) simp
  ultimately have d0: "3 * of_int k \<le> d" by simp
  have "d \<le> toDouble (of_int (5 * k))" unfolding d_def using j1 by (intro toDouble_mono) simp
  moreover have "toDouble (of_int (5 * k)) = of_int (5 * k)"
    using k by (intro toDouble_int small) simp
  ultimately have d1: "d \<le> 5 * of_int k" by simp
  have "cappedDelay (attempt rm) * 0.25 = of_int k" by (simp add: c)
  then have "fst (getNextDelay r rm) = max 0 d"
    unfolding getNextDelay_def Let_def d_def j_def u_def t_def by (simp only: q c fst_conv)
  moreover have "0 \<le> d" using d0 kpos by linarith
  ultimately have delay: "fst (getNextDelay r rm) = d" by simp
  show "3/4 * cappedDelay (attempt rm) \<le> fst (getNextDelay r rm)"
    using d0 by (simp add: delay c)
  show "fst (getNextDelay r rm) \<le> 5/4 * cappedDelay (attempt rm)"
    using d1 by (simp add: delay c)
qed

lemma attempt_getNextDelay: "attempt (snd (getNextDelay r rm)) = attempt rm + 1"
  by (simp add: getNextDelay_def Let_def)

lemma nextDelays_nth:
  "\<forall>r\<in>set rs. 0 \<le> r \<and> r < 1 \<Longrightarrow> i < length rs \<Longrightarrow>
   3/4 * cappedDelay (attempt rm + i) \<le> nextDelays rs rm ! i
   \<and> nextDelays rs rm ! i \<le> 5/4 * cappedDelay (attempt rm + i)"
proof (induction rs arbitrary: rm i)
  case Nil
  then show ?case by simp
next
  case (Cons r rs)
  show ?case
  proof (cases i)
    case 0
    then show ?thesis using Cons.prems getNextDelay_bounds [of r rm] by simp
  next
    case (Suc j)
    then show ?thesis
      using Cons.prems Cons.IH [of j "snd (getNextDelay r rm)"]
      by (simp add: attempt_getNextDelay)
  qed
qed

lemma exponentOf_eq:
  "0 < x \<Longrightarrow> 2 powr of_int e \<le> x \<Longrightarrow> x < 2 powr of_int (e + 1) \<Longrightarrow> exponentOf x = e"
  using floor_log_eq_powr_iff [of x 2 e] by (simp add: exponentOf_log)

lemma toDouble_between:
  assumes "2 powr of_int e \<le> x" and "x < 2 powr of_int (e + 1)"
  shows "toDouble x =
     of_int (roundTiesToEven (x / 2 powr of_int (e - 52))) * 2 powr of_int (e - 52)"
proof -
  have "0 < (2::real) powr of_int e" by simp
  then have x: "0 < x" using assms(1) by linarith
  then show ?thesis
    by (simp add: toDouble_def roundMagnitude_powr exponentOf_eq [OF x assms])
qed

text \<open>
  The upper bound is attained: on the largest draw below 1 that has 52 fractional bits, the
  jitter of the first call rounds to \<open>250 - 2 ^ -43\<close> and the sum, halfway between two doubles,
  rounds to the even one, 1250.
\<close>

lemma getNextDelay_bound_attained:
  "fst (getNextDelay (1 - 1 / 2 ^ 52) newReconnectionManager) = 5/4 * cappedDelay 0"
proof -
  have c: "cappedDelay 0 = 1000"
    by (simp add: cappedDelay_def exponentialDelay_def baseDelay_def maxDelay_def)
  have q: "toDouble 250 = 250" using toDouble_int [of 250] by simp
  have t: "toDouble (2 - 1 / 2 ^ 51) = 2 - 1 / 2 ^ 51"
    using toDouble_dyadic [of "2 ^ 52 - 1" "- 51"] by (simp add: powr_minus_divide field_simps)
  have u: "toDouble (1 - 1 / 2 ^ 51) = 1 - 1 / 2 ^ 51"
    using toDouble_dyadic [of "2 ^ 51 - 1" "- 51"] by (simp add: powr_minus_divide field_simps)
  have j: "toDouble (250 * (1 - 1 / 2 ^ 51)) = 250 - 1 / 2 ^ 43"
    using toDouble_between [of 7 "250 * (1 - 1 / 2 ^ 51)"]
    by (simp add: powr_minus_divide roundTiesToEven_def Let_def floor_eq_iff)
  have d: "toDouble (1000 + (250 - 1 / 2 ^ 43)) = 1250"
    using toDouble_between [of 10 "1000 + (250 - 1 / 2 ^ 43)"]
    by (simp add: powr_minus_divide roundTiesToEven_def Let_def floor_eq_iff)
  have e1: "(1 - 1 / 2 ^ 52) * 2 = (2 - 1 / 2 ^ 51 :: real)" by simp
  have e2: "2 - 1 / 2 ^ 51 - 1 = (1 - 1 / 2 ^ 51 :: real)" by simp
  have e3: "1000 * 0.25 = (250 :: real)" by simp
  have "fst (getNextDelay (1 - 1 / 2 ^ 52) newReconnectionManager) = max 0 1250"
    unfolding getNextDelay_def Let_def newReconnectionManager_def
    by (simp only: ReconnectionManager.select_convs fst_conv c e1 t e2 u e3 q j d)
  then show ?thesis by (simp add: c)
qed

text \<open>Two draws for which no operation of \<^verbatim>\<open>getNextDelay\<close> rounds.\<close>

lemma getNextDelay_draw_half: "fst (getNextDelay (1/2) rm) = cappedDelay (attempt rm)"
proof -
  obtain k :: int where c: "cappedDelay (attempt rm) = 4 * of_int k"
    and k: "250 \<le> k" "k \<le> 7500"
    by (rule cappedDelay_quarters)
  have "toDouble (of_int (4 * k)) = of_int (4 * k)" using k by (intro toDouble_int) simp
  then have whole: "toDouble (4 * of_int k) = 4 * of_int k" by simp
  show ?thesis
    unfolding getNextDelay_def Let_def using k by (simp add: c toDouble_simple whole)
qed

lemma getNextDelay_draw_three_quarters:
  assumes "cappedDelay (attempt rm) = 30000"
  shows "fst (getNextDelay (3/4) rm) = 33750"
proof -
  have a: "toDouble (3/2) = 3/2" using toDouble_half [of 3] by simp
  have b: "toDouble (1/2) = 1/2" using toDouble_half [of 1] by simp
  have c: "toDouble 7500 = 7500" using toDouble_int [of 7500] by simp
  have d: "toDouble 3750 = 3750" using toDouble_int [of 3750] by simp
  have e: "toDouble 33750 = 33750" using toDouble_int [of 33750] by simp
  show ?thesis
    unfolding getNextDelay_def Let_def by (simp add: assms a b c d e)
qed

text \<open>
  Claim C7, as stated, for the sixth call of a fresh manager: the capped component has
  reached \<^verbatim>\<open>maxDelay\<close>, and with the random draw \<open>3/4\<close> the jitter adds an eighth of it, so the
  call returns 33750 ms (no operation rounds on these draws).
\<close>

theorem getNextDelay_exceeds_maxDelay:
  "nextDelays [1/2, 1/2, 1/2, 1/2, 1/2, 3/4] newReconnectionManager =
     [1000, 2000, 4000, 8000, 16000, 33750]
   \<and> maxDelay < nextDelays [1/2, 1/2, 1/2, 1/2, 1/2, 3/4] newReconnectionManager ! 5"
proof -
  have capped: "cappedDelay 0 = 1000" "cappedDelay (Suc 0) = 2000"
    "cappedDelay (Suc (Suc 0)) = 4000" "cappedDelay (Suc (Suc (Suc 0))) = 8000"
    "cappedDelay (Suc (Suc (Suc (Suc 0)))) = 16000"
    "cappedDelay (Suc (Suc (Suc (Suc (Suc 0))))) = 30000"
    by (simp_all add: cappedDelay_def exponentialDelay_def baseDelay_def maxDelay_def)
  have "nextDelays [1/2, 1/2, 1/2, 1/2, 1/2, 3/4] newReconnectionManager =
     [1000, 2000, 4000, 8000, 16000, 33750]"
    by (simp add: getNextDelay_draw_half getNextDelay_draw_three_quarters attempt_getNextDelay
        capped newReconnectionManager_def)
  then show ?thesis by (simp add: maxDelay_def)
qed

text \<open>
  Claim C7, amended: for every sequence of calls of \<^verbatim>\<open>getNextDelay\<close> and all random draws in
  \<open>[0, 1)\<close>, the \<open>i\<close>-th delay returned lies within a quarter of its capped component
  \<open>min (baseDelay * 2 ^ attempt) maxDelay\<close>: it is at least three quarters and at most five
  quarters of it, so it never exceeds \<open>1.25 * maxDelay\<close> (37500 ms); the capped component
  never exceeds \<^verbatim>\<open>maxDelay\<close> and is non-decreasing from one call to the next. Five quarters
  are reached: the sum of the first call of a fresh manager on the draw \<open>1 - 2 ^ -52\<close> rounds
  to 1250.
\<close>

theorem getNextDelay_jittered_cap:
  assumes "\<forall>r\<in>set randoms. 0 \<le> r \<and> r < 1" and "i < length randoms"
  shows "3/4 * cappedDelay (attempt rm + i) \<le> nextDelays randoms rm ! i
       \<and> nextDelays randoms rm ! i \<le> 5/4 * cappedDelay (attempt rm + i)
       \<and> nextDelays randoms rm ! i \<le> 5/4 * maxDelay
       \<and> 5/4 * maxDelay = 37500
       \<and> cappedDelay (attempt rm + i) \<le> maxDelay
       \<and> cappedDelay (attempt rm + i) \<le> cappedDelay (attempt rm + i + 1)
       \<and> fst (getNextDelay (1 - 1 / 2 ^ 52) newReconnectionManager) = 5/4 * cappedDelay 0"
proof -
  note b = nextDelays_nth [OF assms, of rm]
  have "cappedDelay (attempt rm + i) \<le> maxDelay" by (rule cappedDelay_le)
  moreover have "cappedDelay (attempt rm + i) \<le> cappedDelay (attempt rm + i + 1)"
    by (rule cappedDelay_mono) simp
  moreover have "5/4 * maxDelay = 37500" by (simp add: maxDelay_def)
  moreover note getNextDelay_bound_attained
  ultimately show ?thesis using b by simp
qed

theorem getNextDelay_jittered_cap_witness:
  "(0::real) \<le> 1/2 \<and> (1/2::real) < 1 \<and> (0::real) \<le> 3/4 \<and> (3/4::real) < 1
   \<and> (5::nat) < length [1/2, 1/2, 1/2, 1/2, 1/2, 3/4 :: real]
   \<and> nextDelays [1/2, 1/2, 1/2, 1/2, 1/2, 3/4] newReconnectionManager ! 5 \<le> 5/4 * maxDelay"
proof -
  have draws: "\<forall>r\<in>set [1/2, 1/2, 1/2, 1/2, 1/2, 3/4 :: real]. 0 \<le> r \<and> r < 1" by simp
  have len: "(5::nat) < length [1/2, 1/2, 1/2, 1/2, 1/2, 3/4 :: real]" by simp
  have "nextDelays [1/2, 1/2, 1/2, 1/2, 1/2, 3/4] newReconnectionManager ! 5 \<le> 5/4 * maxDelay"
    using getNextDelay_jittered_cap [OF draws len, where rm = newReconnectionManager] by blast
  then show ?thesis by simp
qed

section \<open>Properties of the story manager\<close>

lemma mset_insertSorted: "mset (insertSorted cmp x ys) = add_mset x (mset ys)"
  by (induction ys) auto

lemma set_insertSorted: "set (insertSorted cmp x ys) = insert x (set ys)"
  by (induction ys) auto

lemma sorted_insertSorted:
  "sorted (map seg_timestamp ys) \<Longrightarrow> sorted (map seg_timestamp (insertSorted byTimestamp x ys))"
  by (induction ys) (auto simp: set_insertSorted byTimestamp_def)

lemma insertSorted_last:
  "\<forall>y\<in>set ys. seg_timestamp y \<le> seg_timestamp x \<Longrightarrow> insertSorted byTimestamp x ys = ys @ [x]"
  by (induction ys) (auto simp: byTimestamp_def)

text \<open>Stability: among the segments of one timestamp the new one comes last.\<close>

lemma filter_insertSorted:
  "sorted (map seg_timestamp ys) \<Longrightarrow>
   filter (\<lambda>s. seg_timestamp s = t) (insertSorted byTimestamp x ys) =
   filter (\<lambda>s. seg_timestamp s = t) (ys @ [x])"
proof (induction ys)
  case Nil
  then show ?case by simp
next
  case (Cons y ys)
  show ?case
  proof (cases "byTimestamp x y < 0")
    case True
    then have "\<forall>z\<in>set (y # ys). seg_timestamp x < seg_timestamp z"
      using Cons.prems by (auto simp: byTimestamp_def)
    then have "seg_timestamp x = t \<Longrightarrow> filter (\<lambda>s. seg_timestamp s = t) (y # ys) = []"
      by (auto simp: filter_empty_conv)
    then show ?thesis using True by auto
  next
    case False
    then show ?thesis using Cons by simp
  qed
qed

lemma sort_array_snoc: "sort_array cmp (xs @ [x]) = insertSorted cmp x (sort_array cmp xs)"
  by (simp add: sort_array_def)

lemma sort_array_Nil: "sort_array cmp [] = []"
  by (simp add: sort_array_def)

lemma sorted_sort_array: "sorted (map seg_timestamp (sort_array byTimestamp xs))"
  by (induction xs rule: rev_induct)
     (simp_all add: sort_array_Nil sort_array_snoc sorted_insertSorted)

lemma mset_sort_array: "mset (sort_array cmp xs) = mset xs"
  by (induction xs rule: rev_induct)
     (simp_all add: sort_array_Nil sort_array_snoc mset_insertSorted)

lemma filter_sort_array:
  "filter (\<lambda>s. seg_timestamp s = t) (sort_array byTimestamp xs) =
   filter (\<lambda>s. seg_timestamp s = t) xs"
  by (induction xs rule: rev_induct)
     (simp_all add: sort_array_Nil sort_array_snoc filter_insertSorted sorted_sort_array)

lemma sort_array_sorted:
  "sorted (map seg_timestamp xs) \<Longrightarrow> sort_array byTimestamp xs = xs"
proof (induction xs rule: rev_induct)
  case Nil
  then show ?case by (simp add: sort_array_Nil)
next
  case (snoc x xs)
  then have "sorted (map seg_timestamp xs)"
    and "\<forall>y\<in>set xs. seg_timestamp y \<le> seg_timestamp x"
    by (auto simp: sorted_append)
  then show ?case using snoc.IH by (simp add: sort_array_snoc insertSorted_last)
qed

lemma sort_array_append_sorted:
  "sort_array byTimestamp (sort_array byTimestamp xs @ ys) = sort_array byTimestamp (xs @ ys)"
proof (induction ys rule: rev_induct)
  case Nil
  then show ?case by (simp add: sort_array_sorted sorted_sort_array)
next
  case (snoc y ys)
  then show ?case by (simp add: sort_array_snoc flip: append_assoc)
qed

lemma getSegments_addSegment:
  "getSegments r (addSegment sid seg now m) =
     (if r = sid \<and> sessions m sid \<noteq> None
      then sort_array byTimestamp (getSegments r m @ [seg])
      else getSegments r m)"
  by (auto simp: getSegments_def addSegment_def refreshSessionTimeout_def Let_def
      split: option.splits)

lemma addSegment_present:
  "(sessions (addSegment sid seg now m) r = None) = (sessions m r = None)"
  by (auto simp: addSegment_def refreshSessionTimeout_def Let_def split: option.splits)

lemma getSegments_addSegments:
  "sessions m r \<noteq> None \<Longrightarrow> sorted (map seg_timestamp (getSegments r m)) \<Longrightarrow>
   getSegments r (addSegments cs m) =
     sort_array byTimestamp
       (getSegments r m @ map (\<lambda>c. fst (snd c)) (filter (\<lambda>c. fst c = r) cs))"
proof (induction cs arbitrary: m)
  case Nil
  then show ?case by (simp add: sort_array_sorted)
next
  case (Cons c cs)
  obtain sid seg now where c: "c = (sid, seg, now)" by (cases c) auto
  let ?m1 = "addSegment sid seg now m"
  have pres: "sessions ?m1 r \<noteq> None" using Cons.prems by (simp add: addSegment_present)
  have srt: "sorted (map seg_timestamp (getSegments r ?m1))"
    using Cons.prems by (simp add: getSegments_addSegment sorted_sort_array)
  show ?case
  proof (cases "sid = r")
    case True
    have "getSegments r (addSegments cs ?m1) =
        sort_array byTimestamp (sort_array byTimestamp (getSegments r m @ [seg])
          @ map (\<lambda>c. fst (snd c)) (filter (\<lambda>c. fst c = r) cs))"
      using Cons.IH [OF pres srt] Cons.prems True by (simp add: getSegments_addSegment)
    then show ?thesis using True by (simp add: c sort_array_append_sorted)
  next
    case False
    then show ?thesis using Cons.IH [OF pres srt] by (simp add: c getSegments_addSegment)
  qed
qed

lemma getSegments_createSession:
  "getSegments uuid (snd (createSession title prompt uuid now m)) = []"
  by (simp add: getSegments_def createSession_def Let_def)

lemma getSegments_createSession_other:
  "r \<noteq> uuid \<or> sessions m uuid = None \<Longrightarrow>
   getSegments r (snd (createSession title prompt uuid now m)) = getSegments r m"
  by (auto simp: getSegments_def createSession_def Let_def)

lemma getSegments_addParticipant:
  "getSegments r (addParticipant sid p now m) = getSegments r m"
  by (auto simp: getSegments_def addParticipant_def refreshSessionTimeout_def Let_def
      split: option.splits)

text \<open>
  Claim C2: take a session as \<^verbatim>\<open>createSession\<close> makes it and any sequence of \<^verbatim>\<open>addSegment\<close>
  calls, for this session or others, with any timestamps. The segment list read back is in
  non-decreasing order of timestamp; the segments of one timestamp stand in the order of
  their insertion; and it holds exactly the segments inserted (as a multiset: none removed,
  none edited). Step by step: \<^verbatim>\<open>addSegment\<close> adds its segment to the list of an existing
  session and changes the content of no list otherwise, \<^verbatim>\<open>addParticipant\<close> changes no list,
  and \<^verbatim>\<open>createSession\<close> with an unused id changes no list.
\<close>

theorem addSegment_chronological:
  "sorted (map seg_timestamp
     (getSegments uuid (addSegments cs (snd (createSession title prompt uuid now m)))))
   \<and> (\<forall>t. filter (\<lambda>s. seg_timestamp s = t)
            (getSegments uuid (addSegments cs (snd (createSession title prompt uuid now m)))) =
          filter (\<lambda>s. seg_timestamp s = t)
            (map (\<lambda>c. fst (snd c)) (filter (\<lambda>c. fst c = uuid) cs)))
   \<and> mset (getSegments uuid (addSegments cs (snd (createSession title prompt uuid now m)))) =
       mset (map (\<lambda>c. fst (snd c)) (filter (\<lambda>c. fst c = uuid) cs))
   \<and> mset (getSegments r (addSegment sid seg now' m')) =
       mset (getSegments r m') + (if r = sid \<and> sessions m' sid \<noteq> None then {#seg#} else {#})
   \<and> getSegments r (addParticipant sid p now' m') = getSegments r m'
   \<and> (sessions m' uuid' = None \<longrightarrow>
        getSegments r (snd (createSession title' prompt' uuid' now' m')) = getSegments r m')"
proof -
  let ?m0 = "snd (createSession title prompt uuid now m)"
  have "sessions ?m0 uuid \<noteq> None" by (simp add: createSession_def Let_def)
  moreover have "sorted (map seg_timestamp (getSegments uuid ?m0))"
    by (simp add: getSegments_createSession)
  ultimately have eq: "getSegments uuid (addSegments cs ?m0) =
      sort_array byTimestamp (map (\<lambda>c. fst (snd c)) (filter (\<lambda>c. fst c = uuid) cs))"
    using getSegments_addSegments [of ?m0 uuid cs] by (simp add: getSegments_createSession)
  show ?thesis
    unfolding eq
    by (simp add: sorted_sort_array filter_sort_array mset_sort_array getSegments_addSegment
        getSegments_addParticipant getSegments_createSession_other)
qed

theorem addSegment_chronological_witness:
  "map seg_content (getSegments ''s''
     (addSegments
        [(''s'', \<lparr>seg_id = ''1'', seg_content = ''late'', seg_contributorId = ''u'',
                  seg_contributorType = User, seg_timestamp = 9, seg_moodTags = []\<rparr>, 10),
         (''s'', \<lparr>seg_id = ''2'', seg_content = ''early'', seg_contributorId = ''u'',
                  seg_contributorType = User, seg_timestamp = 4, seg_moodTags = []\<rparr>, 11),
         (''s'', \<lparr>seg_id = ''3'', seg_content = ''tie'', seg_contributorId = ''u'',
                  seg_contributorType = User, seg_timestamp = 9, seg_moodTags = []\<rparr>, 12)]
        (snd (createSession ''T'' None ''s'' 1 newStoryManager)))) = [''early'', ''late'', ''tie'']
   \<and> sessions newStoryManager ''s'' = None
   \<and> getSegments ''r'' (snd (createSession ''T'' None ''s'' 1 newStoryManager)) =
       getSegments ''r'' newStoryManager"
proof -
  have fresh: "sessions newStoryManager ''s'' = None" by (simp add: newStoryManager_def)
  have "getSegments ''r'' (snd (createSession ''T'' None ''s'' 1 newStoryManager)) =
      getSegments ''r'' newStoryManager"
    using fresh addSegment_chronological [where m' = newStoryManager and uuid' = "''s''"
        and r = "''r''" and title' = "''T''" and prompt' = None and now' = 1]
    by blast
  then show ?thesis
    using fresh
    by (simp add: getSegments_def addSegment_def createSession_def refreshSessionTimeout_def
        sort_array_def byTimestamp_def newStoryManager_def Let_def)
qed

text \<open>
  Claim C6, as stated, for \<^verbatim>\<open>exportSession\<close> on an empty registry: the call throws.
\<close>

theorem exportSession_missing_throws:
  "exportSession (\<lambda>t. []) (\<lambda>t. []) ''missing'' Text newStoryManager = Throws ''Session not found''"
  by (simp add: exportSession_def newStoryManager_def)

text \<open>
  Claim C6, amended: invoked with a session id that is not in the registry, \<^verbatim>\<open>addParticipant\<close>
  and \<^verbatim>\<open>addSegment\<close> return normally and leave the registry as it was (they return \<^verbatim>\<open>void\<close>,
  nothing is reported), and \<^verbatim>\<open>exportSession\<close> throws the error \<open>Session not found\<close>, for
  either format.
\<close>

theorem missing_session_operations:
  assumes "sessions m sessionId = None"
  shows "addParticipant sessionId participant now m = m
       \<and> addSegment sessionId segment now m = m
       \<and> exportSession toISOString toLocaleString sessionId format m = Throws ''Session not found''"
  using assms by (simp add: addParticipant_def addSegment_def exportSession_def)

theorem missing_session_operations_witness:
  "sessions newStoryManager ''missing'' = None
   \<and> addSegment ''missing''
        \<lparr>seg_id = ''1'', seg_content = ''x'', seg_contributorId = ''u'',
         seg_contributorType = User, seg_timestamp = 9, seg_moodTags = []\<rparr> 10 newStoryManager =
       newStoryManager
   \<and> exportSession (\<lambda>t. []) (\<lambda>t. []) ''missing'' Html newStoryManager =
       Throws ''Session not found''"
proof -
  have missing: "sessions newStoryManager ''missing'' = None" by (simp add: newStoryManager_def)
  show ?thesis
    using missing missing_session_operations [OF missing] by simp
qed

section \<open>Properties of the websocket handlers\<close>

lemma received_append: "received c (xs @ ys) = received c xs @ received c ys"
  by (simp add: received_def)

lemma segmentsAdded_append: "segmentsAdded (xs @ ys) = segmentsAdded xs @ segmentsAdded ys"
  by (induction xs rule: segmentsAdded.induct) simp_all

lemma received_Nil: "received c [] = []"
  by (simp add: received_def)

lemma received_Cons:
  "received c ((socket, event) # ds) = (if socket = c then event # received c ds else received c ds)"
  by (simp add: received_def)

lemma received_socketEmit:
  "received c (socketEmit socket event) = (if socket = c then [event] else [])"
  by (simp add: received_def socketEmit_def)

lemma received_members:
  "received c (map (\<lambda>member. (member, event)) members) = replicate (count_list members c) event"
  by (induction members) (simp_all add: received_def)

lemma received_ioToEmit:
  "received c (ioToEmit gw room event) = replicate (count_list (rooms gw room) c) event"
  by (simp add: ioToEmit_def received_members)

lemma received_socketToEmit:
  "received c (socketToEmit gw socket room event) =
     replicate (count_list (filter (\<lambda>member. member \<noteq> socket) (rooms gw room)) c) event"
  by (simp add: socketToEmit_def received_members)

lemma segmentsAdded_replicate_SegmentAdded:
  "segmentsAdded (replicate n (SegmentAdded segment)) = replicate n segment"
  by (induction n) simp_all

lemma segmentsAdded_replicate_ErrorEvent:
  "segmentsAdded (replicate n (ErrorEvent message code details)) = []"
  by (induction n) simp_all

lemma segmentsAdded_replicate_ParticipantJoined:
  "segmentsAdded (replicate n (ParticipantJoined participant)) = []"
  by (induction n) simp_all

lemma copies_of_accepted:
  "segmentsAdded (received c
     (map (\<lambda>member. (member, SegmentAdded segment)) members
      @ [(socket, SegmentAdded segment), (socket, SegmentAcknowledged uuid)])) =
   copiesFor c (sessionId, members, Some socket, segment)"
proof (cases "socket = c")
  case True
  have "replicate (count_list members c) segment @ [segment] =
      replicate (count_list members c + 1) segment"
    by (simp add: replicate_append_same)
  then show ?thesis
    using True
    by (simp add: copiesFor_def received_append received_members received_Cons received_Nil
        segmentsAdded_append segmentsAdded_replicate_SegmentAdded)
next
  case False
  then show ?thesis
    by (simp add: copiesFor_def received_append received_members received_Cons received_Nil
        segmentsAdded_append segmentsAdded_replicate_SegmentAdded)
qed

lemma no_segments_reconnect:
  "segmentsAdded (received c (snd (onSessionReconnect socket sessionId participantId gw))) = []"
  by (simp add: onSessionReconnect_def received_socketEmit received_append sessionNotFound_def
      Let_def split: option.splits)

lemma no_segments_create:
  "segmentsAdded (received c (snd (onSessionCreate socket title prompt userName uuid now gw))) = []"
  by (simp add: onSessionCreate_def received_socketEmit Let_def split: prod.splits)

lemma no_segments_join:
  "segmentsAdded (received c (snd (onSessionJoin socket sessionId userName now gw))) = []"
  by (simp add: onSessionJoin_def received_socketEmit received_append received_socketToEmit
      segmentsAdded_append segmentsAdded_replicate_ParticipantJoined sessionNotFound_def Let_def
      split: option.splits)

lemma present_after_addSegment:
  "getSession sid m = Some session \<Longrightarrow> \<exists>updated. getSession sid (addSegment sid seg now m) = Some updated"
  by (simp add: getSession_def addSegment_def refreshSessionTimeout_def Let_def)

lemma onSegmentAdd_invalid:
  "\<not> v_valid (validateSegment content) \<Longrightarrow>
   \<exists>message. onSegmentAdd socket sessionId content uuid now gw =
     (gw, [(socket, ErrorEvent message ''CONTENT_VALIDATION_ERROR'' None)], None)"
  by (simp add: onSegmentAdd_def socketEmit_def Let_def)

lemma onSegmentAdd_missing:
  "v_valid (validateSegment content) \<Longrightarrow> getSession sessionId (storyManager gw) = None \<Longrightarrow>
   onSegmentAdd socket sessionId content uuid now gw = (gw, [(socket, sessionNotFound)], None)"
  by (simp add: onSegmentAdd_def socketEmit_def Let_def)

lemma seg_id_newUserSegment: "seg_id (newUserSegment socket content v uuid now gw) = uuid"
  by (simp add: newUserSegment_def)

lemma onSegmentAdd_accepted:
  assumes "v_valid (validateSegment content)"
    and "getSession sessionId (storyManager gw) = Some session"
  shows "fst (onSegmentAdd socket sessionId content uuid now gw) =
           gw\<lparr>storyManager := addSegment sessionId
                 (newUserSegment socket content (validateSegment content) uuid now gw) now
                 (storyManager gw)\<rparr>"
    and "fst (snd (onSegmentAdd socket sessionId content uuid now gw)) =
           map (\<lambda>member. (member,
                 SegmentAdded (newUserSegment socket content (validateSegment content) uuid now gw)))
             (rooms gw sessionId)
           @ [(socket, SegmentAdded (newUserSegment socket content (validateSegment content) uuid now gw)),
              (socket, SegmentAcknowledged uuid)]"
proof -
  obtain updated where u: "getSession sessionId (addSegment sessionId
      (newUserSegment socket content (validateSegment content) uuid now gw) now (storyManager gw)) = Some updated"
    using present_after_addSegment [OF assms(2)] by blast
  show "fst (onSegmentAdd socket sessionId content uuid now gw) =
           gw\<lparr>storyManager := addSegment sessionId
                 (newUserSegment socket content (validateSegment content) uuid now gw) now
                 (storyManager gw)\<rparr>"
    unfolding onSegmentAdd_def Let_def
    using assms u by simp
  show "fst (snd (onSegmentAdd socket sessionId content uuid now gw)) =
           map (\<lambda>member. (member,
                 SegmentAdded (newUserSegment socket content (validateSegment content) uuid now gw)))
             (rooms gw sessionId)
           @ [(socket, SegmentAdded (newUserSegment socket content (validateSegment content) uuid now gw)),
              (socket, SegmentAcknowledged uuid)]"
    unfolding onSegmentAdd_def Let_def
    using assms u by (simp add: ioToEmit_def socketEmit_def seg_id_newUserSegment)
qed

lemma step_segments:
  "segmentsAdded (received c (snd (handle input gw))) = concat (map (copiesFor c) (appended input gw))"
proof (cases input)
  case (Reconnect socket sessionId participantId)
  then show ?thesis by (simp add: no_segments_reconnect appended_def)
next
  case (Create socket title prompt userName uuid now)
  then show ?thesis by (simp add: no_segments_create appended_def)
next
  case (Join socket sessionId userName now)
  then show ?thesis by (simp add: no_segments_join appended_def)
next
  case (AddSegment socket sessionId content uuid now)
  show ?thesis
  proof (cases "v_valid (validateSegment content)")
    case False
    then obtain message where "onSegmentAdd socket sessionId content uuid now gw =
        (gw, [(socket, ErrorEvent message ''CONTENT_VALIDATION_ERROR'' None)], None)"
      using onSegmentAdd_invalid by blast
    then show ?thesis using False AddSegment by (simp add: appended_def received_Cons received_Nil)
  next
    case True
    show ?thesis
    proof (cases "getSession sessionId (storyManager gw)")
      case None
      then show ?thesis
        using True AddSegment
        by (simp add: onSegmentAdd_missing appended_def received_Cons received_Nil sessionNotFound_def)
    next
      case (Some session)
      have "snd (handle input gw) = fst (snd (onSegmentAdd socket sessionId content uuid now gw))"
        using AddSegment by (simp split: prod.splits)
      then show ?thesis
        using True Some AddSegment
        by (simp add: onSegmentAdd_accepted(2) [OF True Some] appended_def copies_of_accepted)
    qed
  qed
next
  case (HorrorElementSettled sessionId settled uuid now)
  then show ?thesis
    by (cases settled)
       (simp_all add: onHorrorElementSettled_def appended_def copiesFor_def received_ioToEmit
          segmentsAdded_replicate_SegmentAdded segmentsAdded_replicate_ErrorEvent Let_def)
qed

lemma run_segments:
  "segmentsAdded (received c (snd (run inputs gw))) =
     concat (map (copiesFor c) (appendedDuring inputs gw))"
proof (induction inputs arbitrary: gw)
  case Nil
  then show ?case by (simp add: received_def)
next
  case (Cons input inputs)
  have "snd (run (input # inputs) gw) = snd (handle input gw) @ snd (run inputs (fst (handle input gw)))"
    by (simp split: prod.splits)
  then show ?case
    using Cons.IH [of "fst (handle input gw)"]
    by (simp add: received_append segmentsAdded_append step_segments)
qed

lemma chronological_newStoryManager: "chronological newStoryManager"
  by (simp add: chronological_def newStoryManager_def)

lemma chronological_createSession:
  "chronological m \<Longrightarrow> chronological (snd (createSession title prompt uuid now m))"
  by (simp add: chronological_def createSession_def Let_def)

lemma chronological_addParticipant:
  "chronological m \<Longrightarrow> chronological (addParticipant sid p now m)"
  by (auto simp: chronological_def addParticipant_def refreshSessionTimeout_def Let_def
      split: option.splits if_splits)

lemma chronological_addSegment:
  "chronological m \<Longrightarrow> chronological (addSegment sid seg now m)"
  by (auto simp: chronological_def addSegment_def refreshSessionTimeout_def Let_def
      sorted_sort_array split: option.splits if_splits)

lemma rooms_socketJoin_distinct:
  "\<forall>room. distinct (rooms gw room) \<Longrightarrow> distinct (rooms (socketJoin socket r gw) room)"
  by (simp add: socketJoin_def)

lemma storyManager_socketJoin: "storyManager (socketJoin socket r gw) = storyManager gw"
  by (simp add: socketJoin_def)

lemma wellFormed_newGateway: "wellFormed newGateway"
  by (simp add: wellFormed_def newGateway_def chronological_newStoryManager)

lemma wellFormed_reconnect:
  "wellFormed gw \<Longrightarrow> wellFormed (fst (onSessionReconnect socket sid pid gw))"
  by (auto simp: wellFormed_def onSessionReconnect_def Let_def storyManager_socketJoin
      rooms_socketJoin_distinct split: option.splits)

lemma wellFormed_create:
  "wellFormed gw \<Longrightarrow> wellFormed (fst (onSessionCreate socket title prompt userName uuid now gw))"
proof -
  assume wf: "wellFormed gw"
  obtain session m1 where c: "createSession title prompt uuid now (storyManager gw) = (session, m1)"
    by (cases "createSession title prompt uuid now (storyManager gw)")
  have "chronological m1"
    using chronological_createSession [of "storyManager gw" title prompt uuid now] wf c
    by (simp add: wellFormed_def)
  then show ?thesis
    using wf c
    by (simp add: wellFormed_def onSessionCreate_def Let_def storyManager_socketJoin
      rooms_socketJoin_distinct chronological_addParticipant)
qed

lemma wellFormed_join:
  "wellFormed gw \<Longrightarrow> wellFormed (fst (onSessionJoin socket sid userName now gw))"
  by (auto simp: wellFormed_def onSessionJoin_def Let_def storyManager_socketJoin
      rooms_socketJoin_distinct chronological_addParticipant split: option.splits)

lemma onSegmentAdd_state:
  "fst (onSegmentAdd socket sid content uuid now gw) = gw \<or>
   fst (onSegmentAdd socket sid content uuid now gw) =
     gw\<lparr>storyManager := addSegment sid
          (newUserSegment socket content (validateSegment content) uuid now gw) now (storyManager gw)\<rparr>"
proof (cases "v_valid (validateSegment content)")
  case False
  then show ?thesis using onSegmentAdd_invalid [OF False] by (metis fst_conv)
next
  case True
  then show ?thesis
    by (cases "getSession sid (storyManager gw)")
       (simp_all add: onSegmentAdd_missing onSegmentAdd_accepted(1))
qed

lemma wellFormed_addSegment_update:
  "wellFormed gw \<Longrightarrow> wellFormed (gw\<lparr>storyManager := addSegment sid seg now (storyManager gw)\<rparr>)"
  by (simp add: wellFormed_def chronological_addSegment)

lemma wellFormed_segmentAdd:
  "wellFormed gw \<Longrightarrow> wellFormed (fst (onSegmentAdd socket sid content uuid now gw))"
  using onSegmentAdd_state [of socket sid content uuid now gw]
  by (auto simp: wellFormed_addSegment_update)

lemma wellFormed_settled:
  "wellFormed gw \<Longrightarrow> wellFormed (fst (onHorrorElementSettled sid settled uuid now gw))"
  by (cases settled) (simp_all add: onHorrorElementSettled_def Let_def wellFormed_addSegment_update)

lemma fst_handle_AddSegment:
  "fst (handle (AddSegment socket sid content uuid now) gw) =
     fst (onSegmentAdd socket sid content uuid now gw)"
  by (cases "onSegmentAdd socket sid content uuid now gw") simp

lemma wellFormed_handle: "wellFormed gw \<Longrightarrow> wellFormed (fst (handle input gw))"
  by (cases input)
     (simp_all add: wellFormed_reconnect wellFormed_create wellFormed_join wellFormed_settled
        wellFormed_segmentAdd fst_handle_AddSegment del: handle.simps(4))

lemma fst_run_Cons: "fst (run (input # inputs) gw) = fst (run inputs (fst (handle input gw)))"
  by (simp split: prod.splits)

lemma wellFormed_run: "wellFormed gw \<Longrightarrow> wellFormed (fst (run inputs gw))"
proof (induction inputs arbitrary: gw)
  case Nil
  then show ?case by simp
next
  case (Cons input inputs)
  then show ?case by (simp only: fst_run_Cons wellFormed_handle)
qed

lemma getSession_addParticipant_segments:
  "getSession sid m = Some session \<Longrightarrow>
   \<exists>mutated. getSession sid (addParticipant sid p now m) = Some mutated
     \<and> s_segments mutated = s_segments session"
  by (simp add: getSession_def addParticipant_def refreshSessionTimeout_def Let_def)

lemma join_payload:
  assumes "getSession sessionId (storyManager gw) = Some session"
  shows "\<exists>payload. received socket (snd (onSessionJoin socket sessionId userName now gw)) =
            [SessionUpdated payload]
          \<and> s_segments payload = s_segments session"
proof -
  let ?p = "\<lparr>p_id = socket, p_name = orElse userName ''Anonymous'', p_joinedAt = now\<rparr>"
  obtain mutated where m: "getSession sessionId (addParticipant sessionId ?p now (storyManager gw)) = Some mutated"
    and s: "s_segments mutated = s_segments session"
    using getSession_addParticipant_segments [OF assms] by blast
  have none: "count_list (filter (\<lambda>member. member \<noteq> socket) members) socket = 0" for members
    by (induction members) simp_all
  have "received socket (snd (onSessionJoin socket sessionId userName now gw)) = [SessionUpdated mutated]"
    unfolding onSessionJoin_def Let_def
    using assms m
    by (simp add: received_append received_socketEmit received_socketToEmit none)
  then show ?thesis using s by blast
qed

lemma sessions_chronological:
  assumes "getSession sessionId (storyManager (fst (run history newGateway))) = Some session"
  shows "sorted (map seg_timestamp (s_segments session))"
  using wellFormed_run [OF wellFormed_newGateway, of history] assms
  by (auto simp: wellFormed_def chronological_def getSession_def)

lemma rooms_distinct_run: "distinct (rooms (fst (run history newGateway)) room)"
  using wellFormed_run [OF wellFormed_newGateway, of history] by (simp add: wellFormed_def)

lemma getSegments_getSession:
  "getSession sid m = Some session \<Longrightarrow> getSegments sid m = s_segments session"
  by (simp add: getSegments_def getSession_def)

lemma ai_call_iff:
  "(snd (snd (onSegmentAdd socket sessionId content uuid now gw)) \<noteq> None) =
     (v_valid (validateSegment content) \<and> getSession sessionId (storyManager gw) \<noteq> None
      \<and> 0 < length (filter (\<lambda>s. seg_contributorType s = User)
            (getSegments sessionId (storyManager (fst (onSegmentAdd socket sessionId content uuid now gw)))))
      \<and> length (filter (\<lambda>s. seg_contributorType s = User)
            (getSegments sessionId (storyManager (fst (onSegmentAdd socket sessionId content uuid now gw)))))
          mod 3 = 0)"
  (is "?lhs = ?rhs")
proof (cases "v_valid (validateSegment content)")
  case False
  then show ?thesis using onSegmentAdd_invalid [OF False, of socket sessionId uuid now gw] by auto
next
  case True
  show ?thesis
  proof (cases "getSession sessionId (storyManager gw)")
    case None
    then show ?thesis using True by (simp add: onSegmentAdd_missing)
  next
    case (Some session)
    let ?seg = "newUserSegment socket content (validateSegment content) uuid now gw"
    obtain updated where u: "getSession sessionId (addSegment sessionId ?seg now (storyManager gw)) = Some updated"
      using present_after_addSegment [OF Some] by blast
    have st: "fst (onSegmentAdd socket sessionId content uuid now gw) =
        gw\<lparr>storyManager := addSegment sessionId ?seg now (storyManager gw)\<rparr>"
      by (rule onSegmentAdd_accepted(1) [OF True Some])
    have g: "getSegments sessionId (storyManager (fst (onSegmentAdd socket sessionId content uuid now gw))) = s_segments updated"
      by (simp add: st getSegments_getSession [OF u])
    have "?lhs = (0 < length (filter (\<lambda>s. seg_contributorType s = User) (s_segments updated))
        \<and> length (filter (\<lambda>s. seg_contributorType s = User) (s_segments updated)) mod 3 = 0)"
      unfolding onSegmentAdd_def Let_def
      using True Some u by simp
    then show ?thesis using True Some g by simp
  qed
qed

lemma ai_call_context:
  "snd (snd (onSegmentAdd socket sessionId content uuid now gw)) = None \<or>
   snd (snd (onSegmentAdd socket sessionId content uuid now gw)) =
     Some (getSegments sessionId (storyManager (fst (onSegmentAdd socket sessionId content uuid now gw))))"
proof (cases "v_valid (validateSegment content)")
  case False
  then show ?thesis using onSegmentAdd_invalid [OF False, of socket sessionId uuid now gw] by auto
next
  case True
  show ?thesis
  proof (cases "getSession sessionId (storyManager gw)")
    case None
    then show ?thesis using True by (simp add: onSegmentAdd_missing)
  next
    case (Some session)
    let ?seg = "newUserSegment socket content (validateSegment content) uuid now gw"
    obtain updated where u: "getSession sessionId (addSegment sessionId ?seg now (storyManager gw)) = Some updated"
      using present_after_addSegment [OF Some] by blast
    have st: "fst (onSegmentAdd socket sessionId content uuid now gw) =
        gw\<lparr>storyManager := addSegment sessionId ?seg now (storyManager gw)\<rparr>"
      by (rule onSegmentAdd_accepted(1) [OF True Some])
    have g: "getSegments sessionId (storyManager (fst (onSegmentAdd socket sessionId content uuid now gw))) = s_segments updated"
      by (simp add: st getSegments_getSession [OF u])
    have "snd (snd (onSegmentAdd socket sessionId content uuid now gw)) = None \<or>
          snd (snd (onSegmentAdd socket sessionId content uuid now gw)) = Some (s_segments updated)"
      unfolding onSegmentAdd_def Let_def
      using True Some u by simp
    then show ?thesis using g by simp
  qed
qed

lemma user_segment_logged:
  assumes "v_valid (validateSegment content)"
    and "getSession sessionId (storyManager gw) = Some session"
  shows "getSegments sessionId (storyManager (fst (onSegmentAdd socket sessionId content uuid now gw))) =
     sort_array byTimestamp (s_segments session @ [newUserSegment socket content (validateSegment content) uuid now gw])"
  using assms
  by (simp add: onSegmentAdd_accepted(1) [OF assms] getSegments_addSegment
      getSegments_getSession [OF assms(2)] getSession_def)

lemma count_list_distinct:
  "distinct xs \<Longrightarrow> count_list xs x = (if x \<in> set xs then 1 else 0)"
  by (induction xs) auto

lemma segment_copies:
  assumes "v_valid (validateSegment content)"
    and "getSession sessionId (storyManager gw) = Some session"
  shows "segmentsAdded (received member
           (fst (snd (onSegmentAdd socket sessionId content uuid now gw)))) =
         replicate (count_list (rooms gw sessionId) member + (if member = socket then 1 else 0))
           (newUserSegment socket content (validateSegment content) uuid now gw)"
proof -
  have "(if Some socket = Some member then 1 else 0) = (if member = socket then 1 else (0::nat))"
    by auto
  then show ?thesis
    by (simp add: onSegmentAdd_accepted(2) [OF assms] copies_of_accepted [of _ _ _ _ _ sessionId]
        copiesFor_def)
qed

lemma events_of_accepted:
  assumes "v_valid (validateSegment content)"
    and "getSession sessionId (storyManager gw) = Some session"
    and "distinct (rooms gw sessionId)"
  shows "received member (fst (snd (onSegmentAdd socket sessionId content uuid now gw))) =
         (if member \<in> set (rooms gw sessionId)
          then [SegmentAdded (newUserSegment socket content (validateSegment content) uuid now gw)]
          else [])
         @ (if member = socket
            then [SegmentAdded (newUserSegment socket content (validateSegment content) uuid now gw),
                  SegmentAcknowledged uuid]
            else [])"
proof -
  have "replicate (count_list (rooms gw sessionId) member)
          (SegmentAdded (newUserSegment socket content (validateSegment content) uuid now gw)) =
        (if member \<in> set (rooms gw sessionId)
         then [SegmentAdded (newUserSegment socket content (validateSegment content) uuid now gw)]
         else [])"
    by (simp add: count_list_distinct [OF assms(3)])
  then show ?thesis
    by (simp add: onSegmentAdd_accepted(2) [OF assms(1,2)] received_append received_members
        received_Cons received_Nil)
qed

text \<open>
  Claim C1, as stated, in the two-client scenario: the creating client, which sent \<open>A\<close>
  itself, is in the room and is also the target of the direct emit, so it observes
  \<^verbatim>\<open>segment:added\<close> for \<open>A\<close> twice.
\<close>

theorem sender_receives_segment_twice:
  "received ''client-1'' (snd (run twoClientScenario newGateway)) =
     [SessionCreated
        \<lparr>s_id = ''session-1'', s_title = ''Test'', s_startingPrompt = None,
         s_participants = [\<lparr>p_id = ''client-1'', p_name = ''Ann'', p_joinedAt = 1000\<rparr>],
         s_segments = [], s_createdAt = 1000, s_lastActivityAt = 1000\<rparr>,
      ParticipantJoined \<lparr>p_id = ''client-2'', p_name = ''Bob'', p_joinedAt = 2000\<rparr>,
      SegmentAdded
        \<lparr>seg_id = ''segment-1'', seg_content = ''A'', seg_contributorId = ''client-1'',
         seg_contributorType = User, seg_timestamp = 3000, seg_moodTags = []\<rparr>,
      SegmentAdded
        \<lparr>seg_id = ''segment-1'', seg_content = ''A'', seg_contributorId = ''client-1'',
         seg_contributorType = User, seg_timestamp = 3000, seg_moodTags = []\<rparr>,
      SegmentAcknowledged ''segment-1'',
      SegmentAdded
        \<lparr>seg_id = ''segment-2'', seg_content = ''B'', seg_contributorId = ''client-2'',
         seg_contributorType = User, seg_timestamp = 4000, seg_moodTags = []\<rparr>]
   \<and> map seg_content (segmentsAdded (received ''client-1'' (snd (run twoClientScenario newGateway))))
       = [''A'', ''A'', ''B'']"
  by code_simp

text \<open>
  Claim C1, amended. In every state the handlers reach, a \<^verbatim>\<open>segment:add\<close> request with valid
  content for an existing session appends its segment to the log of the session, and the
  matching \<^verbatim>\<open>segment:added\<close> event goes once, through the room, to every connection joined to
  the room of the session, and once more, directly, to the sender, followed by
  \<^verbatim>\<open>segment:acknowledged\<close>: of this request a joined sender receives the event twice in a row and
  then the acknowledgement, a sender that is not joined the event once and the
  acknowledgement, every other joined connection the event once, and any other connection
  nothing. Over any sequence of inputs, from any state, the \<^verbatim>\<open>segment:added\<close> events that a
  connection receives are exactly these copies (for the segments of the co-author, one per
  membership) in the order in which the handlers called \<^verbatim>\<open>addSegment\<close>. In the two-client
  scenario the creating client observes \<^verbatim>\<open>session:created\<close>, \<^verbatim>\<open>participant:joined\<close>, \<open>A\<close> twice,
  \<^verbatim>\<open>segment:acknowledged\<close> and \<open>B\<close> once; the second client, which joined before any segment
  and sent \<open>B\<close>, observes \<^verbatim>\<open>session:updated\<close> with no segment, then \<open>A\<close> once, \<open>B\<close> twice and
  \<^verbatim>\<open>segment:acknowledged\<close>.
\<close>

theorem segment_added_fan_out:
  assumes "v_valid (validateSegment content)"
    and "getSession sessionId (storyManager (fst (run history newGateway))) = Some session"
  shows "getSegments sessionId
           (storyManager (fst (onSegmentAdd socket sessionId content uuid now
              (fst (run history newGateway))))) =
         sort_array byTimestamp
           (s_segments session
            @ [newUserSegment socket content (validateSegment content) uuid now
                 (fst (run history newGateway))])
       \<and> received member
           (fst (snd (onSegmentAdd socket sessionId content uuid now
              (fst (run history newGateway))))) =
         (if member \<in> set (rooms (fst (run history newGateway)) sessionId)
          then [SegmentAdded (newUserSegment socket content (validateSegment content) uuid now
                  (fst (run history newGateway)))]
          else [])
         @ (if member = socket
            then [SegmentAdded (newUserSegment socket content (validateSegment content) uuid now
                    (fst (run history newGateway))),
                  SegmentAcknowledged uuid]
            else [])
       \<and> segmentsAdded (received member
           (fst (snd (onSegmentAdd socket sessionId content uuid now
              (fst (run history newGateway)))))) =
         replicate
           ((if member \<in> set (rooms (fst (run history newGateway)) sessionId) then 1 else 0)
            + (if member = socket then 1 else 0))
           (newUserSegment socket content (validateSegment content) uuid now
              (fst (run history newGateway)))
       \<and> segmentsAdded (received member (snd (run inputs gw))) =
         concat (map (copiesFor member) (appendedDuring inputs gw))
       \<and> received ''client-1'' (snd (run twoClientScenario newGateway)) =
         [SessionCreated
            \<lparr>s_id = ''session-1'', s_title = ''Test'', s_startingPrompt = None,
             s_participants = [\<lparr>p_id = ''client-1'', p_name = ''Ann'', p_joinedAt = 1000\<rparr>],
             s_segments = [], s_createdAt = 1000, s_lastActivityAt = 1000\<rparr>,
          ParticipantJoined \<lparr>p_id = ''client-2'', p_name = ''Bob'', p_joinedAt = 2000\<rparr>,
          SegmentAdded
            \<lparr>seg_id = ''segment-1'', seg_content = ''A'', seg_contributorId = ''client-1'',
             seg_contributorType = User, seg_timestamp = 3000, seg_moodTags = []\<rparr>,
          SegmentAdded
            \<lparr>seg_id = ''segment-1'', seg_content = ''A'', seg_contributorId = ''client-1'',
             seg_contributorType = User, seg_timestamp = 3000, seg_moodTags = []\<rparr>,
          SegmentAcknowledged ''segment-1'',
          SegmentAdded
            \<lparr>seg_id = ''segment-2'', seg_content = ''B'', seg_contributorId = ''client-2'',
             seg_contributorType = User, seg_timestamp = 4000, seg_moodTags = []\<rparr>]
       \<and> received ''client-2'' (snd (run twoClientScenario newGateway)) =
         [SessionUpdated
            \<lparr>s_id = ''session-1'', s_title = ''Test'', s_startingPrompt = None,
             s_participants = [\<lparr>p_id = ''client-1'', p_name = ''Ann'', p_joinedAt = 1000\<rparr>,
                               \<lparr>p_id = ''client-2'', p_name = ''Bob'', p_joinedAt = 2000\<rparr>],
             s_segments = [], s_createdAt = 1000, s_lastActivityAt = 2000\<rparr>,
          SegmentAdded
            \<lparr>seg_id = ''segment-1'', seg_content = ''A'', seg_contributorId = ''client-1'',
             seg_contributorType = User, seg_timestamp = 3000, seg_moodTags = []\<rparr>,
          SegmentAdded
            \<lparr>seg_id = ''segment-2'', seg_content = ''B'', seg_contributorId = ''client-2'',
             seg_contributorType = User, seg_timestamp = 4000, seg_moodTags = []\<rparr>,
          SegmentAdded
            \<lparr>seg_id = ''segment-2'', seg_content = ''B'', seg_contributorId = ''client-2'',
             seg_contributorType = User, seg_timestamp = 4000, seg_moodTags = []\<rparr>,
          SegmentAcknowledged ''segment-2'']
       \<and> map seg_content
           (segmentsAdded (received ''client-2'' (snd (run twoClientScenario newGateway)))) =
         [''A'', ''B'', ''B'']"
proof (intro conjI)
  show "getSegments sessionId
           (storyManager (fst (onSegmentAdd socket sessionId content uuid now
              (fst (run history newGateway))))) =
         sort_array byTimestamp
           (s_segments session
            @ [newUserSegment socket content (validateSegment content) uuid now
                 (fst (run history newGateway))])"
    by (rule user_segment_logged [OF assms])
  show "received member
           (fst (snd (onSegmentAdd socket sessionId content uuid now
              (fst (run history newGateway))))) =
         (if member \<in> set (rooms (fst (run history newGateway)) sessionId)
          then [SegmentAdded (newUserSegment socket content (validateSegment content) uuid now
                  (fst (run history newGateway)))]
          else [])
         @ (if member = socket
            then [SegmentAdded (newUserSegment socket content (validateSegment content) uuid now
                    (fst (run history newGateway))),
                  SegmentAcknowledged uuid]
            else [])"
    by (rule events_of_accepted [OF assms rooms_distinct_run])
  show "segmentsAdded (received member
           (fst (snd (onSegmentAdd socket sessionId content uuid now
              (fst (run history newGateway)))))) =
         replicate
           ((if member \<in> set (rooms (fst (run history newGateway)) sessionId) then 1 else 0)
            + (if member = socket then 1 else 0))
           (newUserSegment socket content (validateSegment content) uuid now
              (fst (run history newGateway)))"
    by (simp only: segment_copies [OF assms] count_list_distinct [OF rooms_distinct_run])
  show "segmentsAdded (received member (snd (run inputs gw))) =
         concat (map (copiesFor member) (appendedDuring inputs gw))"
    by (rule run_segments)
  show "received ''client-1'' (snd (run twoClientScenario newGateway)) =
         [SessionCreated
            \<lparr>s_id = ''session-1'', s_title = ''Test'', s_startingPrompt = None,
             s_participants = [\<lparr>p_id = ''client-1'', p_name = ''Ann'', p_joinedAt = 1000\<rparr>],
             s_segments = [], s_createdAt = 1000, s_lastActivityAt = 1000\<rparr>,
          ParticipantJoined \<lparr>p_id = ''client-2'', p_name = ''Bob'', p_joinedAt = 2000\<rparr>,
          SegmentAdded
            \<lparr>seg_id = ''segment-1'', seg_content = ''A'', seg_contributorId = ''client-1'',
             seg_contributorType = User, seg_timestamp = 3000, seg_moodTags = []\<rparr>,
          SegmentAdded
            \<lparr>seg_id = ''segment-1'', seg_content = ''A'', seg_contributorId = ''client-1'',
             seg_contributorType = User, seg_timestamp = 3000, seg_moodTags = []\<rparr>,
          SegmentAcknowledged ''segment-1'',
          SegmentAdded
            \<lparr>seg_id = ''segment-2'', seg_content = ''B'', seg_contributorId = ''client-2'',
             seg_contributorType = User, seg_timestamp = 4000, seg_moodTags = []\<rparr>]"
    by code_simp
  show "received ''client-2'' (snd (run twoClientScenario newGateway)) =
         [SessionUpdated
            \<lparr>s_id = ''session-1'', s_title = ''Test'', s_startingPrompt = None,
             s_participants = [\<lparr>p_id = ''client-1'', p_name = ''Ann'', p_joinedAt = 1000\<rparr>,
                               \<lparr>p_id = ''client-2'', p_name = ''Bob'', p_joinedAt = 2000\<rparr>],
             s_segments = [], s_createdAt = 1000, s_lastActivityAt = 2000\<rparr>,
          SegmentAdded
            \<lparr>seg_id = ''segment-1'', seg_content = ''A'', seg_contributorId = ''client-1'',
             seg_contributorType = User, seg_timestamp = 3000, seg_moodTags = []\<rparr>,
          SegmentAdded
            \<lparr>seg_id = ''segment-2'', seg_content = ''B'', seg_contributorId = ''client-2'',
             seg_contributorType = User, seg_timestamp = 4000, seg_moodTags = []\<rparr>,
          SegmentAdded
            \<lparr>seg_id = ''segment-2'', seg_content = ''B'', seg_contributorId = ''client-2'',
             seg_contributorType = User, seg_timestamp = 4000, seg_moodTags = []\<rparr>,
          SegmentAcknowledged ''segment-2'']"
    by code_simp
  show "map seg_content
           (segmentsAdded (received ''client-2'' (snd (run twoClientScenario newGateway)))) =
         [''A'', ''B'', ''B'']"
    by code_simp
qed

theorem segment_added_fan_out_witness:
  "v_valid (validateSegment ''B'')
   \<and> getSession ''session-1''
        (storyManager (fst (run [Create ''client-1'' ''Test'' None ''Ann'' ''session-1'' 1000,
                                  Join ''client-2'' ''session-1'' ''Bob'' 2000] newGateway))) =
       Some \<lparr>s_id = ''session-1'', s_title = ''Test'', s_startingPrompt = None,
             s_participants = [\<lparr>p_id = ''client-1'', p_name = ''Ann'', p_joinedAt = 1000\<rparr>,
                               \<lparr>p_id = ''client-2'', p_name = ''Bob'', p_joinedAt = 2000\<rparr>],
             s_segments = [], s_createdAt = 1000, s_lastActivityAt = 2000\<rparr>
   \<and> map seg_content (segmentsAdded (received ''client-1''
        (fst (snd (onSegmentAdd ''client-2'' ''session-1'' ''B'' ''segment-2'' 4000
           (fst (run [Create ''client-1'' ''Test'' None ''Ann'' ''session-1'' 1000,
                      Join ''client-2'' ''session-1'' ''Bob'' 2000] newGateway))))))) = [''B'']"
proof -
  have valid: "v_valid (validateSegment ''B'')"
    by code_simp
  have present: "getSession ''session-1''
        (storyManager (fst (run [Create ''client-1'' ''Test'' None ''Ann'' ''session-1'' 1000,
                                  Join ''client-2'' ''session-1'' ''Bob'' 2000] newGateway))) =
       Some \<lparr>s_id = ''session-1'', s_title = ''Test'', s_startingPrompt = None,
             s_participants = [\<lparr>p_id = ''client-1'', p_name = ''Ann'', p_joinedAt = 1000\<rparr>,
                               \<lparr>p_id = ''client-2'', p_name = ''Bob'', p_joinedAt = 2000\<rparr>],
             s_segments = [], s_createdAt = 1000, s_lastActivityAt = 2000\<rparr>"
    by code_simp
  have member: "''client-1'' \<in> set (rooms
        (fst (run [Create ''client-1'' ''Test'' None ''Ann'' ''session-1'' 1000,
                   Join ''client-2'' ''session-1'' ''Bob'' 2000] newGateway)) ''session-1'')"
    by code_simp
  have content: "seg_content (newUserSegment ''client-2'' ''B'' (validateSegment ''B'')
        ''segment-2'' 4000
        (fst (run [Create ''client-1'' ''Test'' None ''Ann'' ''session-1'' 1000,
                   Join ''client-2'' ''session-1'' ''Bob'' 2000] newGateway))) = ''B''"
    by code_simp
  have "segmentsAdded (received ''client-1''
        (fst (snd (onSegmentAdd ''client-2'' ''session-1'' ''B'' ''segment-2'' 4000
           (fst (run [Create ''client-1'' ''Test'' None ''Ann'' ''session-1'' 1000,
                      Join ''client-2'' ''session-1'' ''Bob'' 2000] newGateway)))))) =
      [newUserSegment ''client-2'' ''B'' (validateSegment ''B'') ''segment-2'' 4000
        (fst (run [Create ''client-1'' ''Test'' None ''Ann'' ''session-1'' 1000,
                   Join ''client-2'' ''session-1'' ''Bob'' 2000] newGateway))]"
    using segment_added_fan_out [OF valid present, where member = "''client-1''"
        and socket = "''client-2''" and uuid = "''segment-2''" and now = 4000,
        THEN conjunct2, THEN conjunct2, THEN conjunct1]
      member
    by simp
  then show ?thesis using valid present content by simp
qed

text \<open>
  Claim C3: in every state the handlers reach, a \<^verbatim>\<open>session:join\<close> request that names an
  existing session gets exactly one event back on the joining connection, \<^verbatim>\<open>session:updated\<close>,
  whose payload carries the whole segment list of the session as it is at that moment: as
  many segments as the session holds, the same ones, in chronological order.
\<close>

theorem join_full_context:
  assumes "getSession sessionId (storyManager (fst (run history newGateway))) = Some session"
  shows "\<exists>payload.
           received socket
             (snd (onSessionJoin socket sessionId userName now (fst (run history newGateway)))) =
             [SessionUpdated payload]
         \<and> s_segments payload = s_segments session
         \<and> length (s_segments payload) = length (s_segments session)
         \<and> sorted (map seg_timestamp (s_segments payload))"
proof -
  obtain payload where
    "received socket
       (snd (onSessionJoin socket sessionId userName now (fst (run history newGateway)))) =
       [SessionUpdated payload]"
    and "s_segments payload = s_segments session"
    using join_payload [OF assms] by blast
  then show ?thesis using sessions_chronological [OF assms] by auto
qed

theorem join_full_context_witness:
  "getSession ''session-1''
     (storyManager (fst (run [Create ''client-1'' ''Test'' None ''Ann'' ''session-1'' 1000,
                               AddSegment ''client-1'' ''session-1'' ''A'' ''segment-1'' 3000]
                          newGateway))) =
     Some \<lparr>s_id = ''session-1'', s_title = ''Test'', s_startingPrompt = None,
           s_participants = [\<lparr>p_id = ''client-1'', p_name = ''Ann'', p_joinedAt = 1000\<rparr>],
           s_segments =
             [\<lparr>seg_id = ''segment-1'', seg_content = ''A'', seg_contributorId = ''client-1'',
               seg_contributorType = User, seg_timestamp = 3000, seg_moodTags = []\<rparr>],
           s_createdAt = 1000, s_lastActivityAt = 3000\<rparr>
   \<and> (\<exists>payload.
         received ''client-2''
           (snd (onSessionJoin ''client-2'' ''session-1'' ''Bob'' 4000
              (fst (run [Create ''client-1'' ''Test'' None ''Ann'' ''session-1'' 1000,
                         AddSegment ''client-1'' ''session-1'' ''A'' ''segment-1'' 3000]
                    newGateway)))) = [SessionUpdated payload]
         \<and> length (s_segments payload) = 1)"
proof -
  have present: "getSession ''session-1''
     (storyManager (fst (run [Create ''client-1'' ''Test'' None ''Ann'' ''session-1'' 1000,
                               AddSegment ''client-1'' ''session-1'' ''A'' ''segment-1'' 3000]
                          newGateway))) =
     Some \<lparr>s_id = ''session-1'', s_title = ''Test'', s_startingPrompt = None,
           s_participants = [\<lparr>p_id = ''client-1'', p_name = ''Ann'', p_joinedAt = 1000\<rparr>],
           s_segments =
             [\<lparr>seg_id = ''segment-1'', seg_content = ''A'', seg_contributorId = ''client-1'',
               seg_contributorType = User, seg_timestamp = 3000, seg_moodTags = []\<rparr>],
           s_createdAt = 1000, s_lastActivityAt = 3000\<rparr>"
    by code_simp
  from join_full_context [OF present, where socket = "''client-2''" and userName = "''Bob''"
      and now = 4000]
  obtain payload where
    "received ''client-2''
       (snd (onSessionJoin ''client-2'' ''session-1'' ''Bob'' 4000
          (fst (run [Create ''client-1'' ''Test'' None ''Ann'' ''session-1'' 1000,
                     AddSegment ''client-1'' ''session-1'' ''A'' ''segment-1'' 3000]
                newGateway)))) = [SessionUpdated payload]"
    and "length (s_segments payload) = 1"
    by auto
  then show ?thesis using present by blast
qed

text \<open>
  Claim C4. The handler of \<^verbatim>\<open>segment:add\<close> calls the generation collaborator exactly when the
  content is valid, the session exists, and the number of user segments of the session
  after the append is positive and a multiple of 3; the context it passes is the segment
  list of the session after the append. When the generation succeeds, the handler hands an
  \<^verbatim>\<open>ai\<close> segment with the generated content to \<^verbatim>\<open>addSegment\<close>, which appends it to the log
  of the session, and emits \<^verbatim>\<open>segment:added\<close> for it to every member of the room. When the
  generation fails, it emits the error \<^verbatim>\<open>AI_GENERATION_ERROR\<close> to every member of the room and
  leaves the state as it is: the user segment, which the first part of the handler has
  appended, stays in the log.
\<close>

theorem ai_coauthor_trigger:
  "(snd (snd (onSegmentAdd socket sessionId content uuid now gw)) \<noteq> None) =
     (v_valid (validateSegment content) \<and> getSession sessionId (storyManager gw) \<noteq> None
      \<and> 0 < length (filter (\<lambda>s. seg_contributorType s = User)
            (getSegments sessionId
               (storyManager (fst (onSegmentAdd socket sessionId content uuid now gw)))))
      \<and> length (filter (\<lambda>s. seg_contributorType s = User)
            (getSegments sessionId
               (storyManager (fst (onSegmentAdd socket sessionId content uuid now gw)))))
          mod 3 = 0)
   \<and> (snd (snd (onSegmentAdd socket sessionId content uuid now gw)) = None \<or>
      snd (snd (onSegmentAdd socket sessionId content uuid now gw)) =
        Some (getSegments sessionId
                (storyManager (fst (onSegmentAdd socket sessionId content uuid now gw)))))
   \<and> onHorrorElementSettled sessionId (Inr horrorElement) uuid' now' gw' =
       (gw'\<lparr>storyManager := addSegment sessionId
               \<lparr>seg_id = uuid', seg_content = h_content horrorElement,
                seg_contributorId = ''ai-coauthor'', seg_contributorType = Ai,
                seg_timestamp = now', seg_moodTags = h_tags horrorElement\<rparr>
               now' (storyManager gw')\<rparr>,
        map (\<lambda>member. (member, SegmentAdded
               \<lparr>seg_id = uuid', seg_content = h_content horrorElement,
                seg_contributorId = ''ai-coauthor'', seg_contributorType = Ai,
                seg_timestamp = now', seg_moodTags = h_tags horrorElement\<rparr>))
          (rooms gw' sessionId))
   \<and> (getSession sessionId (storyManager gw') \<noteq> None \<longrightarrow>
        getSegments sessionId
          (storyManager (fst (onHorrorElementSettled sessionId (Inr horrorElement) uuid' now' gw'))) =
        sort_array byTimestamp
          (getSegments sessionId (storyManager gw')
           @ [\<lparr>seg_id = uuid', seg_content = h_content horrorElement,
                seg_contributorId = ''ai-coauthor'', seg_contributorType = Ai,
                seg_timestamp = now', seg_moodTags = h_tags horrorElement\<rparr>]))
   \<and> onHorrorElementSettled sessionId (Inl aiError) uuid' now' gw' =
       (gw', map (\<lambda>member. (member,
                   ErrorEvent ''AI co-author failed to generate content'' ''AI_GENERATION_ERROR''
                     (Some aiError)))
               (rooms gw' sessionId))
   \<and> (v_valid (validateSegment content) \<and> getSession sessionId (storyManager gw) \<noteq> None \<longrightarrow>
        newUserSegment socket content (validateSegment content) uuid now gw
          \<in> set (getSegments sessionId
                   (storyManager (fst (onSegmentAdd socket sessionId content uuid now gw)))))"
proof (intro conjI impI)
  show "(snd (snd (onSegmentAdd socket sessionId content uuid now gw)) \<noteq> None) =
     (v_valid (validateSegment content) \<and> getSession sessionId (storyManager gw) \<noteq> None
      \<and> 0 < length (filter (\<lambda>s. seg_contributorType s = User)
            (getSegments sessionId
               (storyManager (fst (onSegmentAdd socket sessionId content uuid now gw)))))
      \<and> length (filter (\<lambda>s. seg_contributorType s = User)
            (getSegments sessionId
               (storyManager (fst (onSegmentAdd socket sessionId content uuid now gw)))))
          mod 3 = 0)"
    by (rule ai_call_iff)
  show "snd (snd (onSegmentAdd socket sessionId content uuid now gw)) = None \<or>
      snd (snd (onSegmentAdd socket sessionId content uuid now gw)) =
        Some (getSegments sessionId
                (storyManager (fst (onSegmentAdd socket sessionId content uuid now gw))))"
    by (rule ai_call_context)
  show "onHorrorElementSettled sessionId (Inr horrorElement) uuid' now' gw' =
       (gw'\<lparr>storyManager := addSegment sessionId
               \<lparr>seg_id = uuid', seg_content = h_content horrorElement,
                seg_contributorId = ''ai-coauthor'', seg_contributorType = Ai,
                seg_timestamp = now', seg_moodTags = h_tags horrorElement\<rparr>
               now' (storyManager gw')\<rparr>,
        map (\<lambda>member. (member, SegmentAdded
               \<lparr>seg_id = uuid', seg_content = h_content horrorElement,
                seg_contributorId = ''ai-coauthor'', seg_contributorType = Ai,
                seg_timestamp = now', seg_moodTags = h_tags horrorElement\<rparr>))
          (rooms gw' sessionId))"
    by (simp add: onHorrorElementSettled_def ioToEmit_def Let_def)
  show "onHorrorElementSettled sessionId (Inl aiError) uuid' now' gw' =
       (gw', map (\<lambda>member. (member,
                   ErrorEvent ''AI co-author failed to generate content'' ''AI_GENERATION_ERROR''
                     (Some aiError)))
               (rooms gw' sessionId))"
    by (simp add: onHorrorElementSettled_def ioToEmit_def)
next
  assume "getSession sessionId (storyManager gw') \<noteq> None"
  then show "getSegments sessionId
          (storyManager (fst (onHorrorElementSettled sessionId (Inr horrorElement) uuid' now' gw'))) =
        sort_array byTimestamp
          (getSegments sessionId (storyManager gw')
           @ [\<lparr>seg_id = uuid', seg_content = h_content horrorElement,
                seg_contributorId = ''ai-coauthor'', seg_contributorType = Ai,
                seg_timestamp = now', seg_moodTags = h_tags horrorElement\<rparr>])"
    by (simp add: onHorrorElementSettled_def Let_def getSegments_addSegment getSession_def)
next
  assume "v_valid (validateSegment content) \<and> getSession sessionId (storyManager gw) \<noteq> None"
  then obtain session where valid: "v_valid (validateSegment content)"
    and present: "getSession sessionId (storyManager gw) = Some session"
    by auto
  have "set (sort_array byTimestamp xs) = set xs" for xs :: "StorySegment list"
    using mset_sort_array [of byTimestamp xs] by (metis set_mset_mset)
  then show "newUserSegment socket content (validateSegment content) uuid now gw
          \<in> set (getSegments sessionId
                   (storyManager (fst (onSegmentAdd socket sessionId content uuid now gw))))"
    by (simp add: user_segment_logged [OF valid present])
qed

theorem ai_coauthor_trigger_witness:
  "v_valid (validateSegment ''three'')
   \<and> getSession ''session-1''
        (storyManager (fst (run [Create ''client-1'' ''Test'' None ''Ann'' ''session-1'' 1000,
                                  AddSegment ''client-1'' ''session-1'' ''one'' ''segment-1'' 2000,
                                  AddSegment ''client-1'' ''session-1'' ''two'' ''segment-2'' 3000]
                             newGateway))) \<noteq> None
   \<and> snd (snd (onSegmentAdd ''client-1'' ''session-1'' ''three'' ''segment-3'' 4000
        (fst (run [Create ''client-1'' ''Test'' None ''Ann'' ''session-1'' 1000,
                   AddSegment ''client-1'' ''session-1'' ''one'' ''segment-1'' 2000,
                   AddSegment ''client-1'' ''session-1'' ''two'' ''segment-2'' 3000]
              newGateway)))) \<noteq> None
   \<and> snd (snd (onSegmentAdd ''client-1'' ''session-1'' ''two'' ''segment-2'' 3000
        (fst (run [Create ''client-1'' ''Test'' None ''Ann'' ''session-1'' 1000,
                   AddSegment ''client-1'' ''session-1'' ''one'' ''segment-1'' 2000]
              newGateway)))) = None"
proof -
  have valid: "v_valid (validateSegment ''three'')"
    by code_simp
  have present: "getSession ''session-1''
        (storyManager (fst (run [Create ''client-1'' ''Test'' None ''Ann'' ''session-1'' 1000,
                                  AddSegment ''client-1'' ''session-1'' ''one'' ''segment-1'' 2000,
                                  AddSegment ''client-1'' ''session-1'' ''two'' ''segment-2'' 3000]
                             newGateway))) \<noteq> None"
    by code_simp
  have three: "length (filter (\<lambda>s. seg_contributorType s = User)
      (getSegments ''session-1''
         (storyManager (fst (onSegmentAdd ''client-1'' ''session-1'' ''three'' ''segment-3'' 4000
            (fst (run [Create ''client-1'' ''Test'' None ''Ann'' ''session-1'' 1000,
                       AddSegment ''client-1'' ''session-1'' ''one'' ''segment-1'' 2000,
                       AddSegment ''client-1'' ''session-1'' ''two'' ''segment-2'' 3000]
                  newGateway))))))) = 3"
    by code_simp
  have two: "length (filter (\<lambda>s. seg_contributorType s = User)
      (getSegments ''session-1''
         (storyManager (fst (onSegmentAdd ''client-1'' ''session-1'' ''two'' ''segment-2'' 3000
            (fst (run [Create ''client-1'' ''Test'' None ''Ann'' ''session-1'' 1000,
                       AddSegment ''client-1'' ''session-1'' ''one'' ''segment-1'' 2000]
                  newGateway))))))) = 2"
    by code_simp
  have multiple: "0 < length (filter (\<lambda>s. seg_contributorType s = User)
      (getSegments ''session-1''
         (storyManager (fst (onSegmentAdd ''client-1'' ''session-1'' ''three'' ''segment-3'' 4000
            (fst (run [Create ''client-1'' ''Test'' None ''Ann'' ''session-1'' 1000,
                       AddSegment ''client-1'' ''session-1'' ''one'' ''segment-1'' 2000,
                       AddSegment ''client-1'' ''session-1'' ''two'' ''segment-2'' 3000]
                  newGateway)))))))
    \<and> length (filter (\<lambda>s. seg_contributorType s = User)
      (getSegments ''session-1''
         (storyManager (fst (onSegmentAdd ''client-1'' ''session-1'' ''three'' ''segment-3'' 4000
            (fst (run [Create ''client-1'' ''Test'' None ''Ann'' ''session-1'' 1000,
                       AddSegment ''client-1'' ''session-1'' ''one'' ''segment-1'' 2000,
                       AddSegment ''client-1'' ''session-1'' ''two'' ''segment-2'' 3000]
                  newGateway))))))) mod 3 = 0"
    by (simp only: three) simp
  have no_multiple: "length (filter (\<lambda>s. seg_contributorType s = User)
      (getSegments ''session-1''
         (storyManager (fst (onSegmentAdd ''client-1'' ''session-1'' ''two'' ''segment-2'' 3000
            (fst (run [Create ''client-1'' ''Test'' None ''Ann'' ''session-1'' 1000,
                       AddSegment ''client-1'' ''session-1'' ''one'' ''segment-1'' 2000]
                  newGateway))))))) mod 3 \<noteq> 0"
    by (simp only: two) simp
  have called: "snd (snd (onSegmentAdd ''client-1'' ''session-1'' ''three'' ''segment-3'' 4000
        (fst (run [Create ''client-1'' ''Test'' None ''Ann'' ''session-1'' 1000,
                   AddSegment ''client-1'' ''session-1'' ''one'' ''segment-1'' 2000,
                   AddSegment ''client-1'' ''session-1'' ''two'' ''segment-2'' 3000]
              newGateway)))) \<noteq> None"
    using ai_coauthor_trigger [where socket = "''client-1''" and sessionId = "''session-1''"
        and content = "''three''" and uuid = "''segment-3''" and now = 4000
        and gw = "fst (run [Create ''client-1'' ''Test'' None ''Ann'' ''session-1'' 1000,
                   AddSegment ''client-1'' ''session-1'' ''one'' ''segment-1'' 2000,
                   AddSegment ''client-1'' ''session-1'' ''two'' ''segment-2'' 3000]
              newGateway)", THEN conjunct1]
      valid present multiple
    by blast
  have not_called: "snd (snd (onSegmentAdd ''client-1'' ''session-1'' ''two'' ''segment-2'' 3000
        (fst (run [Create ''client-1'' ''Test'' None ''Ann'' ''session-1'' 1000,
                   AddSegment ''client-1'' ''session-1'' ''one'' ''segment-1'' 2000]
              newGateway)))) = None"
    using ai_coauthor_trigger [where socket = "''client-1''" and sessionId = "''session-1''"
        and content = "''two''" and uuid = "''segment-2''" and now = 3000
        and gw = "fst (run [Create ''client-1'' ''Test'' None ''Ann'' ''session-1'' 1000,
                   AddSegment ''client-1'' ''session-1'' ''one'' ''segment-1'' 2000]
              newGateway)", THEN conjunct1]
      no_multiple
    by blast
  show ?thesis using valid present called not_called by blast
qed

text \<open>What the validation rejects, and what the handler does with rejected content.\<close>

lemma validateSegment_valid:
  "v_valid (validateSegment content) =
     (hasContent content \<and> isValidLength (sanitizeInput content)
      \<and> \<not> containsProfanity (sanitizeInput content))"
  by (simp add: validateSegment_def Let_def)

lemma onSegmentAdd_rejected:
  assumes "\<not> hasContent content \<or> \<not> isValidLength (sanitizeInput content)
           \<or> containsProfanity (sanitizeInput content)"
  shows "\<exists>message. onSegmentAdd socket sessionId content uuid now gw =
           (gw, [(socket, ErrorEvent message ''CONTENT_VALIDATION_ERROR'' None)], None)"
  using assms onSegmentAdd_invalid [of content socket sessionId uuid now gw]
  by (simp add: validateSegment_valid)

text \<open>
  Claim C5 at the content \<open>a< ass >\<close>, sent by the creator of a session: the content
  contains a word of the profanity list, as \<^verbatim>\<open>containsProfanity\<close> itself finds; the validation
  strips the span from \<^verbatim>\<open><\<close> to \<^verbatim>\<open>>\<close> before it looks for profanity and accepts; the handler
  appends a segment with the content \<open>a\<close>, emits it, and emits no error.
\<close>

theorem profanity_in_brackets_accepted:
  "containsProfanity ''a< ass >''
   \<and> validateSegment ''a< ass >'' = \<lparr>v_valid = True, v_error = None, v_sanitized = Some ''a''\<rparr>
   \<and> getSegments ''session-1''
       (storyManager (fst (run [Create ''client-1'' ''Test'' None ''Ann'' ''session-1'' 1000,
                                 AddSegment ''client-1'' ''session-1'' ''a< ass >'' ''segment-1'' 2000]
                            newGateway))) =
       [\<lparr>seg_id = ''segment-1'', seg_content = ''a'', seg_contributorId = ''client-1'',
         seg_contributorType = User, seg_timestamp = 2000, seg_moodTags = []\<rparr>]
   \<and> received ''client-1''
       (snd (handle (AddSegment ''client-1'' ''session-1'' ''a< ass >'' ''segment-1'' 2000)
          (fst (run [Create ''client-1'' ''Test'' None ''Ann'' ''session-1'' 1000] newGateway)))) =
       [SegmentAdded
          \<lparr>seg_id = ''segment-1'', seg_content = ''a'', seg_contributorId = ''client-1'',
           seg_contributorType = User, seg_timestamp = 2000, seg_moodTags = []\<rparr>,
        SegmentAdded
          \<lparr>seg_id = ''segment-1'', seg_content = ''a'', seg_contributorId = ''client-1'',
           seg_contributorType = User, seg_timestamp = 2000, seg_moodTags = []\<rparr>,
        SegmentAcknowledged ''segment-1'']"
  by code_simp

end
